theory Spec2Isabelle
  imports Main "HOL-Library.Char_ord" "HOL-Library.List_Lexorder"
begin

section \<open>Python values used by the scrapers\<close>

text \<open>
  A Python \<open>str\<close> is modelled as an Isabelle \<open>string\<close>: a list of code points below 256.
  A Python \<open>bytes\<close> value is a list of 8-bit characters as well; the two are kept apart by
  the constructors of \<open>txt_segment\<close>.  \<open>bytes.decode()\<close> is a builtin of the language and
  not code of the repository: it is a parameter of the model, \<open>None\<close> standing for the
  \<open>UnicodeDecodeError\<close> it raises on input that is not UTF-8.  The functions keep the
  names of the source, without the leading underscore of the private ones.
\<close>

type_synonym bytes = "char list"

type_synonym decoder = "bytes \<Rightarrow> string option"

text \<open>
  The exceptions raised inside the scrapers: the one that the construction of dnspython's
  resolver raises when it finds no configuration, the four that a query signals by name,
  the parse error of python-whois, the two that the normalizer can meet, and one
  constructor for every other subclass of \<open>Exception\<close>.
\<close>

datatype exn =
    NoResolverConfiguration
  | NXDOMAIN
  | NoAnswer
  | NoNameservers
  | Timeout
  | PywhoisError string
  | UnicodeDecodeError
  | AttributeError string
  | OtherException string

text \<open>
  \<open>str(e)\<close>: the message given at construction, or the text of the exception's class.
  Of these exceptions only that of the resolver's construction leaves a scraper.
\<close>

fun str_scraper_exn :: "exn \<Rightarrow> string" where
  "str_scraper_exn NoResolverConfiguration =
     ''Resolver configuration could not be read or specified no nameservers.''"
| "str_scraper_exn NXDOMAIN = ''The DNS query name does not exist.''"
| "str_scraper_exn NoAnswer = ''The DNS response does not contain an answer to the question.''"
| "str_scraper_exn NoNameservers = ''All nameservers failed to answer the query.''"
| "str_scraper_exn Timeout = ''The DNS operation timed out.''"
| "str_scraper_exn (PywhoisError m) = m"
| "str_scraper_exn UnicodeDecodeError = ''invalid start byte''"
| "str_scraper_exn (AttributeError m) = m"
| "str_scraper_exn (OtherException m) = m"

text \<open>\<open>s.rstrip(chars)\<close>: drop every trailing character that occurs in \<open>chars\<close>.\<close>

definition rstrip :: "string \<Rightarrow> string \<Rightarrow> string" where
  "rstrip s chars = rev (dropWhile (\<lambda>c. c \<in> set chars) (rev s))"

text \<open>
  \<open>s.lower()\<close> on code points below 256: the ASCII capitals and the Latin-1 capitals
  (U+00C0 to U+00DE without the multiplication sign U+00D7) move up by 32.
\<close>

definition lower_char :: "char \<Rightarrow> char" where
  "lower_char c =
     (let n = (of_char c :: nat)
      in if (65 \<le> n \<and> n \<le> 90) \<or> (192 \<le> n \<and> n \<le> 222 \<and> n \<noteq> 215)
         then char_of (n + 32) else c)"

definition lower :: "string \<Rightarrow> string" where
  "lower s = map lower_char s"

definition ends_with_dot :: "string \<Rightarrow> bool" where
  "ends_with_dot s = (s \<noteq> [] \<and> last s = CHR ''.'')"

text \<open>\<open>str(n)\<close> for an integer, as an f-string formats it.\<close>

fun str_nat :: "nat \<Rightarrow> string" where
  "str_nat n =
     (if n < 10 then [''0123456789'' ! n]
      else str_nat (n div 10) @ [''0123456789'' ! (n mod 10)])"

definition str_int :: "int \<Rightarrow> string" where
  "str_int i = (if i < 0 then CHR ''-'' # str_nat (nat (- i)) else str_nat (nat i))"

section \<open>DNS answers\<close>

text \<open>
  One element of an answer (dnspython's \<open>rdata\<close>).  Every rdata has a text form
  \<open>str(rdata)\<close>; the attributes that \<open>_extract_record_value\<close> reads exist on the rdata
  classes of the matching type only.  Names (\<open>exchange\<close>, \<open>mname\<close>, \<open>rname\<close>) are carried
  by their text form \<open>str(name)\<close>, which is what the source formats; the resolver hands
  over absolute names, whose text form ends in the root-dot.  The arguments after the text
  form are: \<open>preference\<close> and \<open>exchange\<close> for \<open>RdMX\<close>; \<open>strings\<close> for \<open>RdTXT\<close>;
  \<open>mname\<close>, \<open>rname\<close> and \<open>serial\<close> for \<open>RdSOA\<close>.  \<open>RdOther\<close> is an rdata with none of
  these attributes, as those of type A, AAAA, NS and CNAME.
\<close>

datatype txt_segment = SBytes bytes | SStr string

datatype rdata =
    RdMX (to_text: string) int string
  | RdTXT (to_text: string) "txt_segment list"
  | RdSOA (to_text: string) string string int
  | RdOther (to_text: string)

fun exchange :: "rdata \<Rightarrow> exn + string" where
  "exchange (RdMX _ _ x) = Inr x"
| "exchange _ = Inl (AttributeError ''exchange'')"

fun preference :: "rdata \<Rightarrow> exn + int" where
  "preference (RdMX _ p _) = Inr p"
| "preference _ = Inl (AttributeError ''preference'')"

fun strings :: "rdata \<Rightarrow> exn + txt_segment list" where
  "strings (RdTXT _ ss) = Inr ss"
| "strings _ = Inl (AttributeError ''strings'')"

fun mname :: "rdata \<Rightarrow> exn + string" where
  "mname (RdSOA _ m _ _) = Inr m"
| "mname _ = Inl (AttributeError ''mname'')"

fun rname :: "rdata \<Rightarrow> exn + string" where
  "rname (RdSOA _ _ r _) = Inr r"
| "rname _ = Inl (AttributeError ''rname'')"

fun serial :: "rdata \<Rightarrow> exn + int" where
  "serial (RdSOA _ _ _ n) = Inr n"
| "serial _ = Inl (AttributeError ''serial'')"

text \<open>\<open>s.decode() if isinstance(s, bytes) else s\<close>\<close>

fun decode_segment :: "decoder \<Rightarrow> txt_segment \<Rightarrow> exn + string" where
  "decode_segment dec (SBytes b) =
     (case dec b of None \<Rightarrow> Inl UnicodeDecodeError | Some t \<Rightarrow> Inr t)"
| "decode_segment dec (SStr t) = Inr t"

text \<open>The list comprehension over \<open>rdata.strings\<close>: the first segment that fails to decode raises.\<close>

fun decode_segments :: "decoder \<Rightarrow> txt_segment list \<Rightarrow> exn + string list" where
  "decode_segments dec [] = Inr []"
| "decode_segments dec (s # ss) =
     (case decode_segment dec s of
        Inl e \<Rightarrow> Inl e
      | Inr t \<Rightarrow> (case decode_segments dec ss of Inl e \<Rightarrow> Inl e | Inr ts \<Rightarrow> Inr (t # ts)))"

text \<open>\<open>_extract_record_value(rdata, record_type)\<close> of \<open>scrapers/dns.py\<close>.\<close>

definition extract_record_value :: "decoder \<Rightarrow> rdata \<Rightarrow> string \<Rightarrow> exn + string" where
  "extract_record_value dec rd record_type =
     (if record_type = ''MX'' then
        (case exchange rd of Inl e \<Rightarrow> Inl e | Inr x \<Rightarrow> Inr (rstrip x ''.''))
      else if record_type = ''TXT'' then
        (case strings rd of
           Inl e \<Rightarrow> Inl e
         | Inr ss \<Rightarrow> (case decode_segments dec ss of Inl e \<Rightarrow> Inl e | Inr ts \<Rightarrow> Inr (concat ts)))
      else if record_type = ''SOA'' then
        (case mname rd of
           Inl e \<Rightarrow> Inl e
         | Inr m \<Rightarrow>
            (case rname rd of
               Inl e \<Rightarrow> Inl e
             | Inr r \<Rightarrow>
                (case serial rd of
                   Inl e \<Rightarrow> Inl e
                 | Inr n \<Rightarrow> Inr (m @ '' '' @ r @ '' (serial: '' @ str_int n @ '')''))))
      else Inr (rstrip (to_text rd) ''.''))"

text \<open>
  An answer is well formed for its record type when the rdata carries the attributes that
  the branch of that type reads and, for TXT, when every \<open>bytes\<close> segment decodes.
\<close>

fun decodable :: "decoder \<Rightarrow> txt_segment \<Rightarrow> bool" where
  "decodable dec (SBytes b) = (dec b \<noteq> None)"
| "decodable dec (SStr t) = True"

definition well_formed_answer :: "decoder \<Rightarrow> string \<Rightarrow> rdata \<Rightarrow> bool" where
  "well_formed_answer dec record_type rd =
     (if record_type = ''MX'' then (case rd of RdMX t p x \<Rightarrow> True | _ \<Rightarrow> False)
      else if record_type = ''TXT'' then
        (case rd of RdTXT t ss \<Rightarrow> list_all (decodable dec) ss | _ \<Rightarrow> False)
      else if record_type = ''SOA'' then (case rd of RdSOA t m r n \<Rightarrow> True | _ \<Rightarrow> False)
      else True)"

text \<open>A decoder for concrete examples: it agrees with UTF-8 on 7-bit input and rejects the rest.\<close>

definition ascii_decode :: decoder where
  "ascii_decode b = (if list_all (\<lambda>c. (of_char c :: nat) < 128) b then Some b else None)"

section \<open>The DNS collector\<close>

definition RECORD_TYPES :: "string list" where
  "RECORD_TYPES = [''A'', ''AAAA'', ''MX'', ''TXT'', ''NS'', ''CNAME'', ''SOA'']"

text \<open>The dictionary built for each rdata; a missing \<open>priority\<close> key is \<open>None\<close>.\<close>

record dns_record =
  record_type :: string
  record_value :: string
  ttl :: int
  priority :: "int option"

text \<open>What \<open>resolver.resolve(domain, record_type)\<close> gives: an exception or the answers.\<close>

record answer =
  answer_ttl :: int
  answer_rdatas :: "rdata list"

type_synonym resolver = "string \<Rightarrow> string \<Rightarrow> exn + answer"

text \<open>
  The inner loop \<open>for rdata in answers\<close>.  It runs inside the \<open>try\<close>: an exception
  leaves it at once, and the records appended before stay in \<open>results\<close>.
\<close>

fun collect_rdata ::
  "decoder \<Rightarrow> string \<Rightarrow> int \<Rightarrow> rdata list \<Rightarrow> dns_record list \<Rightarrow> dns_record list \<times> exn option"
where
  "collect_rdata dec rt t [] results = (results, None)"
| "collect_rdata dec rt t (rd # rds) results =
     (case extract_record_value dec rd rt of
        Inl e \<Rightarrow> (results, Some e)
      | Inr v \<Rightarrow>
          (let record = \<lparr>record_type = rt, record_value = v, ttl = t, priority = None\<rparr>
           in if rt = ''MX'' then
                (case preference rd of
                   Inl e \<Rightarrow> (results, Some e)
                 | Inr p \<Rightarrow> collect_rdata dec rt t rds (results @ [record\<lparr>priority := Some p\<rparr>]))
              else collect_rdata dec rt t rds (results @ [record])))"

text \<open>The body of the \<open>try\<close> for one record type.\<close>

definition query_type ::
  "decoder \<Rightarrow> resolver \<Rightarrow> string \<Rightarrow> string \<Rightarrow> dns_record list \<Rightarrow> dns_record list \<times> exn option"
where
  "query_type dec resolve domain rt results =
     (case resolve domain rt of
        Inl e \<Rightarrow> (results, Some e)
      | Inr answers \<Rightarrow> collect_rdata dec rt (answer_ttl answers) (answer_rdatas answers) results)"

text \<open>The \<open>except\<close> clauses in their order: only NXDOMAIN leaves the loop.\<close>

datatype flow = Break | Continue

fun on_exception :: "exn \<Rightarrow> flow" where
  "on_exception NXDOMAIN = Break"
| "on_exception NoResolverConfiguration = Continue"
| "on_exception NoAnswer = Continue"
| "on_exception NoNameservers = Continue"
| "on_exception Timeout = Continue"
| "on_exception (PywhoisError m) = Continue"
| "on_exception UnicodeDecodeError = Continue"
| "on_exception (AttributeError m) = Continue"
| "on_exception (OtherException m) = Continue"

text \<open>
  The loop \<open>for record_type in RECORD_TYPES\<close>.  Beside \<open>results\<close> the model keeps the
  list of record types handed to the resolver so far, which the source does not store.
\<close>

fun scan_types ::
  "decoder \<Rightarrow> resolver \<Rightarrow> string \<Rightarrow> string list \<Rightarrow> dns_record list \<times> string list
   \<Rightarrow> dns_record list \<times> string list"
where
  "scan_types dec resolve domain [] st = st"
| "scan_types dec resolve domain (rt # rts) (results, queried) =
     (case query_type dec resolve domain rt results of
        (results', None) \<Rightarrow> scan_types dec resolve domain rts (results', queried @ [rt])
      | (results', Some e) \<Rightarrow>
          (case on_exception e of
             Break \<Rightarrow> (results', queried @ [rt])
           | Continue \<Rightarrow> scan_types dec resolve domain rts (results', queried @ [rt])))"

text \<open>
  \<open>scan_dns_records(domain)\<close> of \<open>scrapers/dns.py\<close>.  Before the loop, and outside every
  \<open>try\<close>, it constructs the resolver: \<open>dns.resolver.Resolver()\<close> reads the system's
  configuration and raises when there is none, and that exception leaves the function.
  The argument \<open>new_resolver\<close> is what the construction gives.
\<close>

definition scan_dns_records_traced ::
  "decoder \<Rightarrow> exn + resolver \<Rightarrow> string \<Rightarrow> exn + dns_record list \<times> string list"
where
  "scan_dns_records_traced dec new_resolver domain =
     (case new_resolver of
        Inl e \<Rightarrow> Inl e
      | Inr resolve \<Rightarrow> Inr (scan_types dec resolve domain RECORD_TYPES ([], [])))"

text \<open>The value that \<open>scan_dns_records(domain)\<close> returns: \<open>results\<close>, or the exception raised.\<close>

definition scan_dns_records :: "decoder \<Rightarrow> exn + resolver \<Rightarrow> string \<Rightarrow> exn + dns_record list" where
  "scan_dns_records dec new_resolver domain =
     (case scan_dns_records_traced dec new_resolver domain of
        Inl e \<Rightarrow> Inl e
      | Inr (results, queried) \<Rightarrow> Inr results)"

text \<open>The resolver calls made by \<open>scan_dns_records(domain)\<close>, in order.\<close>

definition scan_dns_queries :: "decoder \<Rightarrow> exn + resolver \<Rightarrow> string \<Rightarrow> string list" where
  "scan_dns_queries dec new_resolver domain =
     (case scan_dns_records_traced dec new_resolver domain of
        Inl e \<Rightarrow> []
      | Inr (results, queried) \<Rightarrow> queried)"

text \<open>The text that one TXT segment contributes to the joined value.\<close>

definition segment_text :: "decoder \<Rightarrow> txt_segment \<Rightarrow> string" where
  "segment_text dec s =
     (case s of SBytes b \<Rightarrow> (case dec b of None \<Rightarrow> [] | Some t \<Rightarrow> t) | SStr t \<Rightarrow> t)"

text \<open>
  Stated after the specification: the record that one rdata of an answer stands for; whether
  an rdata normalizes, that is, whether its value and, for MX, its preference can be read;
  and the records of one record type: none when the resolver raised, else those of the
  rdata of its answer, in order, as far as they normalize.
\<close>

definition make_record :: "decoder \<Rightarrow> string \<Rightarrow> int \<Rightarrow> rdata \<Rightarrow> dns_record" where
  "make_record dec rt t rd =
     \<lparr>record_type = rt,
      record_value = (case extract_record_value dec rd rt of Inl e \<Rightarrow> [] | Inr v \<Rightarrow> v),
      ttl = t,
      priority = (if rt = ''MX'' then (case preference rd of Inl e \<Rightarrow> None | Inr p \<Rightarrow> Some p)
                  else None)\<rparr>"

definition normalizes :: "decoder \<Rightarrow> string \<Rightarrow> rdata \<Rightarrow> bool" where
  "normalizes dec rt rd =
     (case extract_record_value dec rd rt of
        Inl e \<Rightarrow> False
      | Inr v \<Rightarrow> (if rt = ''MX'' then (case preference rd of Inl e \<Rightarrow> False | Inr p \<Rightarrow> True)
                 else True))"

definition records_of_type :: "decoder \<Rightarrow> resolver \<Rightarrow> string \<Rightarrow> string \<Rightarrow> dns_record list" where
  "records_of_type dec resolve domain rt =
     (case resolve domain rt of
        Inl e \<Rightarrow> []
      | Inr a \<Rightarrow>
          map (make_record dec rt (answer_ttl a)) (takeWhile (normalizes dec rt) (answer_rdatas a)))"

text \<open>A resolver for examples: A times out, MX has one answer, the other types have none.\<close>

definition example_resolver :: resolver where
  "example_resolver domain rt =
     (if rt = ''A'' then Inl Timeout
      else if rt = ''MX'' then
        Inr \<lparr>answer_ttl = 300, answer_rdatas = [RdMX ''10 mail.example.com.'' 10 ''mail.example.com.'']\<rparr>
      else Inl NoAnswer)"

text \<open>
  A resolver whose TXT answer has three rdata, the second of which is not UTF-8; the other
  record types have no answer.
\<close>

definition txt_resolver :: resolver where
  "txt_resolver domain rt =
     (if rt = ''TXT'' then
        Inr \<lparr>answer_ttl = 60,
             answer_rdatas = [RdTXT ''good'' [SBytes ''good''],
                              RdTXT ''?'' [SBytes [CHR 0xFF]],
                              RdTXT ''late'' [SBytes ''late'']]\<rparr>
      else Inl NoAnswer)"

section \<open>The WHOIS collector\<close>

text \<open>
  The shapes in which python-whois hands over a field: absent, one value, or a list of
  values.  A date is a \<open>datetime\<close>, a string or something else; a \<open>datetime\<close> is
  modelled by a number.  \<open>datetime.fromisoformat\<close> belongs to the standard library and is
  a parameter, \<open>None\<close> standing for its \<open>ValueError\<close>.
\<close>

type_synonym datetime = int

datatype whois_field = FNone | FStr string | FList "string list"

datatype date_item = DDatetime datetime | DString string | DOther

datatype date_value = DateNone | DateItem date_item | DateList "date_item list"

datatype ns_value = NsNone | NsStr string | NsList "string list"

text \<open>\<open>_safe_get(value)\<close>\<close>

fun safe_get :: "whois_field \<Rightarrow> string option" where
  "safe_get FNone = None"
| "safe_get (FList []) = None"
| "safe_get (FList (x # xs)) = Some x"
| "safe_get (FStr s) = Some s"

text \<open>\<open>_normalize_date(date_value)\<close>: the tests that follow the unwrapping of a list.\<close>

fun normalize_date_item :: "(string \<Rightarrow> datetime option) \<Rightarrow> date_item \<Rightarrow> datetime option" where
  "normalize_date_item fromisoformat (DDatetime d) = Some d"
| "normalize_date_item fromisoformat (DString s) = fromisoformat s"
| "normalize_date_item fromisoformat DOther = None"

fun normalize_date :: "(string \<Rightarrow> datetime option) \<Rightarrow> date_value \<Rightarrow> datetime option" where
  "normalize_date fromisoformat DateNone = None"
| "normalize_date fromisoformat (DateList []) = None"
| "normalize_date fromisoformat (DateList (x # xs)) = normalize_date_item fromisoformat x"
| "normalize_date fromisoformat (DateItem x) = normalize_date_item fromisoformat x"

text \<open>
  \<open>_normalize_nameservers(ns_value)\<close>.  \<open>list(set(...))\<close> has no order of its own, and
  \<open>sorted\<close> compares strings code point by code point, as the lexicographic order on
  character lists does.
\<close>

definition clean_nameservers :: "string list \<Rightarrow> string list option" where
  "clean_nameservers ns_value =
     (let nameservers = set (map (\<lambda>ns. rstrip (lower ns) ''.'') (filter (\<lambda>ns. ns \<noteq> []) ns_value))
      in if nameservers = {} then None else Some (sorted_list_of_set nameservers))"

fun normalize_nameservers :: "ns_value \<Rightarrow> string list option" where
  "normalize_nameservers NsNone = None"
| "normalize_nameservers (NsStr s) = clean_nameservers [s]"
| "normalize_nameservers (NsList xs) = clean_nameservers xs"

text \<open>The parsed response \<open>w\<close> and the dictionary that \<open>scan_whois\<close> returns.\<close>

record whois_entry =
  w_domain_name :: whois_field
  w_registrar :: whois_field
  w_creation_date :: date_value
  w_expiration_date :: date_value
  w_updated_date :: date_value
  w_name_servers :: ns_value
  w_country :: whois_field
  w_text :: "string option"

record whois_result =
  registrar :: "string option"
  creation_date :: "datetime option"
  expiration_date :: "datetime option"
  updated_date :: "datetime option"
  name_servers :: "string list option"
  registrant_country :: "string option"
  raw_data :: "string option"

type_synonym whois_lookup = "string \<Rightarrow> exn + whois_entry"

text \<open>The body of the \<open>try\<close> in \<open>scan_whois\<close>: the lookup may raise.\<close>

definition whois_try ::
  "(string \<Rightarrow> datetime option) \<Rightarrow> whois_lookup \<Rightarrow> string \<Rightarrow> exn + whois_result option"
where
  "whois_try fromisoformat lookup domain =
     (case lookup domain of
        Inl e \<Rightarrow> Inl e
      | Inr w \<Rightarrow>
          if w_domain_name w = FNone then Inr None
          else Inr (Some
            \<lparr>registrar = safe_get (w_registrar w),
             creation_date = normalize_date fromisoformat (w_creation_date w),
             expiration_date = normalize_date fromisoformat (w_expiration_date w),
             updated_date = normalize_date fromisoformat (w_updated_date w),
             name_servers = normalize_nameservers (w_name_servers w),
             registrant_country = safe_get (w_country w),
             raw_data = w_text w\<rparr>))"

text \<open>The two \<open>except\<close> clauses: the parse error first, then every other exception.\<close>

fun whois_on_exception :: "exn \<Rightarrow> whois_result option" where
  "whois_on_exception (PywhoisError m) = None"
| "whois_on_exception e = None"

text \<open>\<open>scan_whois(domain)\<close> of \<open>scrapers/whois.py\<close>.\<close>

definition scan_whois ::
  "(string \<Rightarrow> datetime option) \<Rightarrow> whois_lookup \<Rightarrow> string \<Rightarrow> whois_result option"
where
  "scan_whois fromisoformat lookup domain =
     (case whois_try fromisoformat lookup domain of
        Inl e \<Rightarrow> whois_on_exception e
      | Inr r \<Rightarrow> r)"

text \<open>The entries of a name-server value after the coercion to a list.\<close>

fun ns_entries :: "ns_value \<Rightarrow> string list" where
  "ns_entries NsNone = []"
| "ns_entries (NsStr s) = [s]"
| "ns_entries (NsList xs) = xs"

text \<open>The set that the claim describes: each non-empty entry, lowercased, without trailing dots.\<close>

definition cleaned_entries :: "ns_value \<Rightarrow> string set" where
  "cleaned_entries v = (\<lambda>ns. rstrip (lower ns) ''.'') ` {ns \<in> set (ns_entries v). ns \<noteq> []}"

section \<open>The subdomain collector\<close>

text \<open>
  \<open>scan_subdomains\<close> is declared \<open>async def\<close>: a call evaluates to a coroutine object
  that wraps the body's result, and the orchestrator calls it without \<open>await\<close>.
\<close>

record subdomain_report =
  report_domain :: string
  report_subdomains :: "string list"
  report_status :: string

datatype 'a coroutine = Coroutine 'a

definition scan_subdomains :: "string \<Rightarrow> subdomain_report coroutine" where
  "scan_subdomains domain =
     Coroutine \<lparr>report_domain = domain, report_subdomains = [], report_status = ''not_implemented''\<rparr>"

section \<open>The persisted rows\<close>

text \<open>
  The tables of \<open>models.py\<close>, one record per row.  The primary keys of the three child
  tables are left out: nothing reads them.
\<close>

record domain_row =
  domain_id :: nat
  domain_name :: string
  created_at :: datetime
  is_active :: bool

record scan_row =
  scan_id :: nat
  scan_domain_id :: nat
  started_at :: datetime
  completed_at :: "datetime option"
  status :: string
  error_message :: "string option"

record dns_record_row =
  dns_scan_id :: nat
  dns_record_type :: string
  dns_record_value :: string
  dns_ttl :: "int option"
  dns_priority :: "int option"

record whois_data_row = whois_result +
  whois_scan_id :: nat

record subdomain_row =
  sub_scan_id :: nat
  subdomain_name :: string
  full_domain :: string
  ip_address :: "string option"
  is_alive :: bool
  http_status :: "int option"

record database =
  domains :: "domain_row list"
  scans :: "scan_row list"
  dns_records :: "dns_record_row list"
  whois_data :: "whois_data_row list"
  subdomains :: "subdomain_row list"

text \<open>The objects handed to \<open>db.add\<close> inside the \<open>try\<close>, waiting for the next commit.\<close>

datatype orm_object = DNSRecord dns_record_row | WhoisData whois_data_row | Subdomain subdomain_row

text \<open>
  The exceptions that reach the orchestrator: one that left a collector, the TypeError of
  step 5, the error of a commit that the store refuses, the error of a session used after
  such a commit without a rollback (it carries the text of the first error), and the HTTP
  error that the handler raises.  \<open>str(e)\<close> is the message carried.
\<close>

datatype scan_exn =
    CollectorException exn
  | TypeError string
  | DatabaseError string
  | PendingRollbackError string
  | HTTPException nat string

fun str_exn :: "scan_exn \<Rightarrow> string" where
  "str_exn (CollectorException e) = str_scraper_exn e"
| "str_exn (TypeError m) = m"
| "str_exn (DatabaseError m) = m"
| "str_exn (PendingRollbackError m) = m"
| "str_exn (HTTPException code m) = m"

text \<open>
  The state of the SQLAlchemy session that \<open>create_scan\<close> is given.  A commit that raises
  leaves the session's transaction inactive until \<open>db.rollback()\<close> is called, and the
  source never calls it.
\<close>

datatype session_state = Active | Inactive string

text \<open>
  What one request meets outside the repository's code: the decoder, the outcome of the
  resolver's construction, the date parser and the WHOIS service; whether the store
  refuses each of the four commits, and with which message; and the clock readings of the
  four calls of \<open>datetime.utcnow\<close>.
\<close>

record environment =
  env_decode :: decoder
  env_resolver :: "exn + resolver"
  env_fromisoformat :: "string \<Rightarrow> datetime option"
  env_whois :: whois_lookup
  domain_commit_error :: "string option"
  scan_commit_error :: "string option"
  final_commit_error :: "string option"
  handler_commit_error :: "string option"
  t_domain_created :: datetime
  t_scan_started :: datetime
  t_completed :: datetime
  t_failed :: datetime

record scan_create =
  sc_domain_name :: string
  include_subdomains :: bool
  include_whois :: bool

record scan_result_response =
  resp_scan :: scan_row
  resp_domain :: domain_row
  resp_dns_records :: "dns_record_row list"
  resp_whois :: "whois_data_row option"
  resp_subdomains :: "subdomain_row list"

section \<open>The scan orchestrator\<close>

text \<open>An autoincrement key: larger than every key of the table.\<close>

definition fresh_id :: "nat list \<Rightarrow> nat" where
  "fresh_id ids = Suc (fold max ids 0)"

text \<open>\<open>db.query(Scan).filter(Scan.id == scan_id).first()\<close>, as \<open>get_scan\<close> reads a scan.\<close>

definition get_scan :: "database \<Rightarrow> nat \<Rightarrow> scan_row option" where
  "get_scan db sid = find (\<lambda>r. scan_id r = sid) (scans db)"

text \<open>
  \<open>Domain(domain_name=domain_name)\<close> and \<open>Scan(domain_id=domain.id, status="running")\<close>
  as the commit stores them: the key is assigned and the column defaults are filled in.
\<close>

definition new_domain :: "environment \<Rightarrow> string \<Rightarrow> database \<Rightarrow> domain_row" where
  "new_domain env name db =
     \<lparr>domain_id = fresh_id (map domain_id (domains db)),
      domain_name = name,
      created_at = t_domain_created env,
      is_active = True\<rparr>"

definition new_scan :: "environment \<Rightarrow> domain_row \<Rightarrow> database \<Rightarrow> scan_row" where
  "new_scan env domain db =
     \<lparr>scan_id = fresh_id (map scan_id (scans db)),
      scan_domain_id = domain_id domain,
      started_at = t_scan_started env,
      completed_at = None,
      status = ''running'',
      error_message = None\<rparr>"

text \<open>
  Step 1: the first Domain of that name, or a new row.  The commit of the new row may
  raise; the exception leaves \<open>create_scan\<close>, which has no handler there.
\<close>

definition get_or_create_domain ::
  "environment \<Rightarrow> string \<Rightarrow> database \<Rightarrow> scan_exn + domain_row \<times> database"
where
  "get_or_create_domain env name db =
     (case find (\<lambda>d. domain_name d = name) (domains db) of
        Some domain \<Rightarrow> Inr (domain, db)
      | None \<Rightarrow>
          (case domain_commit_error env of
             Some m \<Rightarrow> Inl (DatabaseError m)
           | None \<Rightarrow>
               (let domain = new_domain env name db
                in Inr (domain, db\<lparr>domains := domains db @ [domain]\<rparr>))))"

text \<open>Step 2: the Scan row, in state \<open>running\<close>.\<close>

definition create_scan_row ::
  "environment \<Rightarrow> domain_row \<Rightarrow> database \<Rightarrow> scan_exn + scan_row \<times> database"
where
  "create_scan_row env domain db =
     (case scan_commit_error env of
        Some m \<Rightarrow> Inl (DatabaseError m)
      | None \<Rightarrow>
          (let scan = new_scan env domain db
           in Inr (scan, db\<lparr>scans := scans db @ [scan]\<rparr>)))"

text \<open>The rows built from the collectors' dictionaries.\<close>

definition dns_row :: "nat \<Rightarrow> dns_record \<Rightarrow> dns_record_row" where
  "dns_row sid record =
     \<lparr>dns_scan_id = sid,
      dns_record_type = record_type record,
      dns_record_value = record_value record,
      dns_ttl = Some (ttl record),
      dns_priority = priority record\<rparr>"

definition whois_row :: "nat \<Rightarrow> whois_result \<Rightarrow> whois_data_row" where
  "whois_row sid whois_result =
     \<lparr>registrar = registrar whois_result,
      creation_date = creation_date whois_result,
      expiration_date = expiration_date whois_result,
      updated_date = updated_date whois_result,
      name_servers = name_servers whois_result,
      registrant_country = registrant_country whois_result,
      raw_data = raw_data whois_result,
      whois_scan_id = sid\<rparr>"

text \<open>One element of the sequence that step 5 expects, with \<open>sub.get\<close> for the optional keys.\<close>

record subdomain_dict =
  sub_subdomain_name :: string
  sub_full_domain :: string
  sub_ip_address :: "string option"
  sub_is_alive :: "bool option"
  sub_http_status :: "int option"

definition subdomain_of :: "nat \<Rightarrow> subdomain_dict \<Rightarrow> subdomain_row" where
  "subdomain_of sid sub =
     \<lparr>sub_scan_id = sid,
      subdomain_name = sub_subdomain_name sub,
      full_domain = sub_full_domain sub,
      ip_address = sub_ip_address sub,
      is_alive = (case sub_is_alive sub of None \<Rightarrow> False | Some b \<Rightarrow> b),
      http_status = sub_http_status sub\<rparr>"

text \<open>
  \<open>for sub in subdomain_results\<close> asks the coroutine object for an iterator, which it does
  not have.
\<close>

definition not_iterable :: string where
  "not_iterable = [CHR 0x27] @ ''coroutine'' @ [CHR 0x27] @ '' object is not iterable''"

definition iter_coroutine :: "'a coroutine \<Rightarrow> scan_exn + subdomain_dict list" where
  "iter_coroutine c = Inl (TypeError not_iterable)"

text \<open>
  Steps 3 to 5, the part of the \<open>try\<close> before the final commit: the objects added to the
  session, and the exception if one was raised.  An exception that leaves
  \<open>scan_dns_records\<close> ends the \<open>try\<close> before anything is added.
\<close>

definition run_collectors ::
  "environment \<Rightarrow> scan_create \<Rightarrow> string \<Rightarrow> nat \<Rightarrow> orm_object list \<times> scan_exn option"
where
  "run_collectors env scan_data name sid =
     (case scan_dns_records (env_decode env) (env_resolver env) name of
        Inl e \<Rightarrow> ([], Some (CollectorException e))
      | Inr dns_results \<Rightarrow>
          (let added = map (\<lambda>record. DNSRecord (dns_row sid record)) dns_results;
               added = (if include_whois scan_data then
                          (case scan_whois (env_fromisoformat env) (env_whois env) name of
                             Some whois_result \<Rightarrow> added @ [WhoisData (whois_row sid whois_result)]
                           | None \<Rightarrow> added)
                        else added)
           in if include_subdomains scan_data then
                (case iter_coroutine (scan_subdomains name) of
                   Inl e \<Rightarrow> (added, Some e)
                 | Inr subdomain_results \<Rightarrow>
                     (added @ map (\<lambda>sub. Subdomain (subdomain_of sid sub)) subdomain_results,
                      None))
              else (added, None)))"

text \<open>
  \<open>db.commit()\<close> inside the \<open>try\<close> and in its handler.  On a session whose transaction
  is inactive it raises at once.  Otherwise either the store refuses it, it raises and the
  stored rows stay as they were, or it writes the added objects and the attributes of the
  scan object.
\<close>

fun insert_object :: "orm_object \<Rightarrow> database \<Rightarrow> database" where
  "insert_object (DNSRecord r) db = db\<lparr>dns_records := dns_records db @ [r]\<rparr>"
| "insert_object (WhoisData r) db = db\<lparr>whois_data := whois_data db @ [r]\<rparr>"
| "insert_object (Subdomain r) db = db\<lparr>subdomains := subdomains db @ [r]\<rparr>"

definition update_scan :: "scan_row \<Rightarrow> database \<Rightarrow> database" where
  "update_scan scan db =
     db\<lparr>scans := map (\<lambda>r. if scan_id r = scan_id scan then scan else r) (scans db)\<rparr>"

definition commit ::
  "session_state \<Rightarrow> string option \<Rightarrow> orm_object list \<Rightarrow> scan_row \<Rightarrow> database
   \<Rightarrow> scan_exn + database"
where
  "commit session refused added scan db =
     (case session of
        Inactive m \<Rightarrow> Inl (PendingRollbackError m)
      | Active \<Rightarrow>
          (case refused of
             Some m \<Rightarrow> Inl (DatabaseError m)
           | None \<Rightarrow> Inr (update_scan scan (fold insert_object added db))))"

text \<open>Step 7: \<open>db.refresh(scan)\<close> and the response built from the scan's relationships.\<close>

definition scan_response :: "database \<Rightarrow> scan_row \<Rightarrow> domain_row \<Rightarrow> scan_exn + scan_result_response" where
  "scan_response db scan domain =
     (case get_scan db (scan_id scan) of
        None \<Rightarrow> Inl (DatabaseError ''Could not refresh instance'')
      | Some refreshed \<Rightarrow>
          Inr \<lparr>resp_scan = refreshed,
               resp_domain = domain,
               resp_dns_records = filter (\<lambda>r. dns_scan_id r = scan_id refreshed) (dns_records db),
               resp_whois = find (\<lambda>r. whois_scan_id r = scan_id refreshed) (whois_data db),
               resp_subdomains = filter (\<lambda>r. sub_scan_id r = scan_id refreshed) (subdomains db)\<rparr>)"

text \<open>
  The \<open>try\<close> with its handler, from step 3 on.  The handler works on the session as the
  \<open>try\<close> left it: active after an exception of steps 3 to 5, inactive after the final
  commit raised.  It marks the scan object failed and commits; when that raises, the
  exception leaves \<open>create_scan\<close> in place of the HTTP error and nothing is stored.
\<close>

definition run_scan ::
  "environment \<Rightarrow> scan_create \<Rightarrow> string \<Rightarrow> domain_row \<Rightarrow> scan_row \<Rightarrow> database
   \<Rightarrow> (scan_exn + scan_result_response) \<times> database"
where
  "run_scan env scan_data name domain scan db =
     (let (added, raised) = run_collectors env scan_data name (scan_id scan);
          completed = scan\<lparr>status := ''completed'', completed_at := Some (t_completed env)\<rparr>;
          attempt = (case raised of
                       Some e \<Rightarrow> Inl (e, scan, Active)
                     | None \<Rightarrow>
                         (case commit Active (final_commit_error env) added completed db of
                            Inl e \<Rightarrow> Inl (e, completed, Inactive (str_exn e))
                          | Inr db' \<Rightarrow> Inr db'))
      in case attempt of
           Inr db' \<Rightarrow> (scan_response db' completed domain, db')
         | Inl (e, scan_object, session) \<Rightarrow>
             (let failed = scan_object\<lparr>status := ''failed'',
                                       error_message := Some (str_exn e),
                                       completed_at := Some (t_failed env)\<rparr>
              in case commit session (handler_commit_error env) added failed db of
                   Inl e' \<Rightarrow> (Inl e', db)
                 | Inr db' \<Rightarrow> (Inl (HTTPException 500 (''Scan failed: '' @ str_exn e)), db')))"

text \<open>\<open>create_scan(scan_data, db)\<close> of \<open>routers/scans.py\<close>.\<close>

definition create_scan ::
  "environment \<Rightarrow> scan_create \<Rightarrow> database \<Rightarrow> (scan_exn + scan_result_response) \<times> database"
where
  "create_scan env scan_data db =
     (let name = lower (sc_domain_name scan_data)
      in case get_or_create_domain env name db of
           Inl e \<Rightarrow> (Inl e, db)
         | Inr (domain, db1) \<Rightarrow>
             (case create_scan_row env domain db1 of
                Inl e \<Rightarrow> (Inl e, db1)
              | Inr (scan, db2) \<Rightarrow> run_scan env scan_data name domain scan db2))"

text \<open>The invariant of a Scan row that the data model states.\<close>

definition scan_invariant :: "scan_row \<Rightarrow> bool" where
  "scan_invariant r =
     (((status r = ''completed'' \<or> status r = ''failed'') \<longleftrightarrow> completed_at r \<noteq> None) \<and>
      (status r = ''running'' \<longrightarrow> completed_at r = None))"

text \<open>An empty store, a request and an environment for examples.\<close>

definition empty_db :: database where
  "empty_db = \<lparr>domains = [], scans = [], dns_records = [], whois_data = [], subdomains = []\<rparr>"

definition example_env :: environment where
  "example_env =
     \<lparr>env_decode = ascii_decode,
      env_resolver = Inr example_resolver,
      env_fromisoformat = (\<lambda>s. None),
      env_whois = (\<lambda>d. Inl (PywhoisError ''No match for domain'')),
      domain_commit_error = None,
      scan_commit_error = None,
      final_commit_error = None,
      handler_commit_error = None,
      t_domain_created = 1000,
      t_scan_started = 1001,
      t_completed = 1002,
      t_failed = 1003\<rparr>"

definition example_request :: scan_create where
  "example_request = \<lparr>sc_domain_name = ''Example.com'', include_subdomains = True, include_whois = True\<rparr>"

definition request_without_subdomains :: scan_create where
  "request_without_subdomains = example_request\<lparr>include_subdomains := False\<rparr>"

definition final_commit_refused :: environment where
  "final_commit_refused = example_env\<lparr>final_commit_error := Some ''connection lost''\<rparr>"

definition handler_commit_refused :: environment where
  "handler_commit_refused = example_env\<lparr>handler_commit_error := Some ''connection lost''\<rparr>"

definition scan_commit_refused :: environment where
  "scan_commit_refused = example_env\<lparr>scan_commit_error := Some ''connection lost''\<rparr>"

definition no_resolver_configuration :: environment where
  "no_resolver_configuration = example_env\<lparr>env_resolver := Inl NoResolverConfiguration\<rparr>"

section \<open>Properties of the record normalizer\<close>

lemma rstrip_dot_no_trailing_dot: "\<not> ends_with_dot (rstrip s ''.'')"
proof -
  let ?ys = "dropWhile (\<lambda>c. c \<in> set ''.'') (rev s)"
  show ?thesis
  proof (cases "?ys = []")
    case True
    then show ?thesis by (simp add: ends_with_dot_def rstrip_def)
  next
    case False
    then have "\<not> (hd ?ys \<in> set ''.'')" by (rule hd_dropWhile)
    moreover have "last (rev ?ys) = hd ?ys" using False by (simp add: last_rev)
    ultimately show ?thesis by (simp add: ends_with_dot_def rstrip_def)
  qed
qed

lemma extract_mx: "extract_record_value dec (RdMX t p x) ''MX'' = Inr (rstrip x ''.'')"
  by (simp add: extract_record_value_def)

lemma extract_soa:
  "extract_record_value dec (RdSOA t m r n) ''SOA'' =
     Inr (m @ '' '' @ r @ '' (serial: '' @ str_int n @ '')'')"
  by (simp add: extract_record_value_def)

lemma extract_plain:
  "rt \<noteq> ''MX'' \<Longrightarrow> rt \<noteq> ''TXT'' \<Longrightarrow> rt \<noteq> ''SOA'' \<Longrightarrow>
   extract_record_value dec rd rt = Inr (rstrip (to_text rd) ''.'')"
  by (simp add: extract_record_value_def)

lemma decode_segments_ok:
  "list_all (decodable dec) ss \<Longrightarrow> decode_segments dec ss = Inr (map (segment_text dec) ss)"
proof (induction ss)
  case Nil
  then show ?case by simp
next
  case (Cons s ss)
  then show ?case by (cases s) (auto simp: segment_text_def)
qed

lemma extract_txt:
  "list_all (decodable dec) ss \<Longrightarrow>
   extract_record_value dec (RdTXT t ss) ''TXT'' = Inr (concat (map (segment_text dec) ss))"
  by (simp add: extract_record_value_def decode_segments_ok)

text \<open>
  C1, as the code has it: for a well-formed answer of type A, AAAA, MX, NS, CNAME or SOA the
  normalizer returns a value, and that string does not end in a dot.  TXT is left out: its
  value is the text of the answer as it is.  Nothing is said here about the names inside
  the SOA composition.
\<close>

theorem extract_record_value_no_trailing_dot:
  assumes "rt \<in> {''A'', ''AAAA'', ''MX'', ''NS'', ''CNAME'', ''SOA''}"
    and "well_formed_answer dec rt rd"
  shows "\<exists>v. extract_record_value dec rd rt = Inr v \<and> \<not> ends_with_dot v"
proof (cases "rt = ''MX''")
  case True
  with assms(2) obtain t p x where "rd = RdMX t p x" by (cases rd) (auto simp: well_formed_answer_def)
  with True show ?thesis by (simp add: extract_mx rstrip_dot_no_trailing_dot)
next
  case notmx: False
  show ?thesis
  proof (cases "rt = ''SOA''")
    case True
    with assms(2) obtain t m r n where "rd = RdSOA t m r n" by (cases rd) (auto simp: well_formed_answer_def)
    with True show ?thesis by (simp add: extract_soa ends_with_dot_def)
  next
    case False
    with notmx assms(1) have "rt \<noteq> ''TXT''" by auto
    with notmx False show ?thesis by (simp add: extract_plain rstrip_dot_no_trailing_dot)
  qed
qed

theorem extract_record_value_no_trailing_dot_witness:
  "''NS'' \<in> {''A'', ''AAAA'', ''MX'', ''NS'', ''CNAME'', ''SOA''} \<and>
   well_formed_answer ascii_decode ''NS'' (RdOther ''ns1.example.com.'') \<and>
   extract_record_value ascii_decode (RdOther ''ns1.example.com.'') ''NS'' = Inr ''ns1.example.com'' \<and>
   \<not> ends_with_dot ''ns1.example.com''"
  using extract_record_value_no_trailing_dot
          [of "''NS''" ascii_decode "RdOther ''ns1.example.com.''"]
  by (simp add: extract_record_value_def rstrip_def ends_with_dot_def well_formed_answer_def)

text \<open>
  C1 as stated fails at two answers.  A TXT answer whose text ends in a dot keeps it, and
  the SOA value is composed of the two names as the resolver prints them, root-dot included.
\<close>

theorem extract_record_value_trailing_dot_counterexample:
  "extract_record_value ascii_decode (RdTXT ''example.com.'' [SBytes ''example.com.'']) ''TXT''
     = Inr ''example.com.'' \<and>
   ends_with_dot ''example.com.'' \<and>
   extract_record_value ascii_decode
       (RdSOA ''ns1.example.com. hostmaster.example.com. 2024 7200 3600 1209600 3600''
          ''ns1.example.com.'' ''hostmaster.example.com.'' 2024) ''SOA''
     = Inr ''ns1.example.com. hostmaster.example.com. (serial: 2024)''"
  by (simp add: extract_record_value_def ascii_decode_def ends_with_dot_def str_int_def)

text \<open>
  C10: a TXT answer whose segments all decode normalizes to the concatenation of the
  decoded segments, in their order.
\<close>

theorem extract_record_value_txt_concat:
  assumes "list_all (decodable dec) ss"
  shows "extract_record_value dec (RdTXT t ss) ''TXT'' = Inr (concat (map (segment_text dec) ss))"
  using assms by (rule extract_txt)

theorem extract_record_value_txt_concat_witness:
  "list_all (decodable ascii_decode) [SBytes ''v=spf1 '', SBytes ''include:_spf.example.com''] \<and>
   extract_record_value ascii_decode
       (RdTXT ''v=spf1 include:_spf.example.com''
          [SBytes ''v=spf1 '', SBytes ''include:_spf.example.com'']) ''TXT''
     = Inr ''v=spf1 include:_spf.example.com''"
  using extract_record_value_txt_concat
          [of ascii_decode "[SBytes ''v=spf1 '', SBytes ''include:_spf.example.com'']"
              "''v=spf1 include:_spf.example.com''"]
  by (simp add: ascii_decode_def segment_text_def)

section \<open>Properties of the DNS collector\<close>

lemma collect_rdata_append:
  "collect_rdata dec rt t rds results =
     (results @ fst (collect_rdata dec rt t rds []), snd (collect_rdata dec rt t rds []))"
proof (induction rds arbitrary: results)
  case Nil
  then show ?case by simp
next
  case (Cons rd rds)
  show ?case
  proof (cases "extract_record_value dec rd rt")
    case (Inl e)
    then show ?thesis by simp
  next
    case (Inr v)
    show ?thesis
    proof (cases "rt = ''MX''")
      case True
      show ?thesis
      proof (cases "preference rd")
        case (Inl e)
        with Inr True show ?thesis by simp
      next
        case p: (Inr p)
        let ?r = "\<lparr>record_type = rt, record_value = v, ttl = t, priority = Some p\<rparr>"
        have "collect_rdata dec rt t (rd # rds) results = collect_rdata dec rt t rds (results @ [?r])"
          using Inr True p by simp
        moreover have "collect_rdata dec rt t (rd # rds) [] = collect_rdata dec rt t rds [?r]"
          using Inr True p by simp
        ultimately show ?thesis
          using Cons.IH [of "results @ [?r]"] Cons.IH [of "[?r]"] by simp
      qed
    next
      case False
      let ?r = "\<lparr>record_type = rt, record_value = v, ttl = t, priority = None\<rparr>"
      have "collect_rdata dec rt t (rd # rds) results = collect_rdata dec rt t rds (results @ [?r])"
        using Inr False by simp
      moreover have "collect_rdata dec rt t (rd # rds) [] = collect_rdata dec rt t rds [?r]"
        using Inr False by simp
      ultimately show ?thesis
        using Cons.IH [of "results @ [?r]"] Cons.IH [of "[?r]"] by simp
    qed
  qed
qed

lemma decode_segments_raises:
  "decode_segments dec ss = Inl e \<Longrightarrow> e = UnicodeDecodeError"
proof (induction ss)
  case Nil
  then show ?case by simp
next
  case (Cons s ss)
  then show ?case by (cases s) (auto split: sum.splits option.splits)
qed

lemma extract_raises_continue:
  assumes "extract_record_value dec rd rt = Inl e"
  shows "on_exception e = Continue"
proof (cases rd)
  case (RdTXT t ss)
  with assms show ?thesis
    by (auto simp: extract_record_value_def split: if_splits sum.splits
             dest: decode_segments_raises)
qed (use assms in \<open>auto simp: extract_record_value_def split: if_splits\<close>)

lemma preference_raises_continue: "preference rd = Inl e \<Longrightarrow> on_exception e = Continue"
  by (cases rd) auto

lemma collect_rdata_raises_continue:
  "snd (collect_rdata dec rt t rds results) = Some e \<Longrightarrow> on_exception e = Continue"
proof (induction rds arbitrary: results)
  case Nil
  then show ?case by simp
next
  case (Cons rd rds)
  then show ?case
    by (auto simp: Let_def split: sum.splits if_splits
             dest: extract_raises_continue preference_raises_continue)
qed

lemma query_type_append:
  "query_type dec resolve domain rt results =
     (results @ fst (query_type dec resolve domain rt []), snd (query_type dec resolve domain rt []))"
proof (cases "resolve domain rt")
  case (Inl e)
  then show ?thesis by (simp add: query_type_def)
next
  case (Inr a)
  then show ?thesis
    using collect_rdata_append [of dec rt "answer_ttl a" "answer_rdatas a" results]
    by (simp add: query_type_def)
qed

lemma query_type_break:
  "(\<exists>e. snd (query_type dec resolve domain rt results) = Some e \<and> on_exception e = Break)
     \<longleftrightarrow> resolve domain rt = Inl NXDOMAIN"
proof (cases "resolve domain rt")
  case (Inl e)
  then show ?thesis by (cases e) (simp_all add: query_type_def)
next
  case (Inr a)
  then show ?thesis
    using collect_rdata_raises_continue [of dec rt "answer_ttl a" "answer_rdatas a" results]
    by (auto simp: query_type_def)
qed

lemma scan_types_step_continue:
  assumes "resolve domain rt \<noteq> Inl NXDOMAIN"
  shows "scan_types dec resolve domain (rt # rts) (results, queried) =
           scan_types dec resolve domain rts
             (results @ fst (query_type dec resolve domain rt []), queried @ [rt])"
proof -
  obtain rs ex where q: "query_type dec resolve domain rt results = (rs, ex)"
    by (cases "query_type dec resolve domain rt results")
  have rs: "rs = results @ fst (query_type dec resolve domain rt [])"
    using q query_type_append [of dec resolve domain rt results] by simp
  show ?thesis
  proof (cases ex)
    case None
    with q rs show ?thesis by simp
  next
    case (Some e)
    have "on_exception e \<noteq> Break"
      using query_type_break [of dec resolve domain rt results] q Some assms by auto
    then have "on_exception e = Continue" by (cases "on_exception e") auto
    with q rs Some show ?thesis by simp
  qed
qed

lemma scan_types_step_break:
  assumes "resolve domain rt = Inl NXDOMAIN"
  shows "scan_types dec resolve domain (rt # rts) (results, queried) = (results, queried @ [rt])"
  using assms by (simp add: query_type_def)

lemma scan_types_no_nxdomain:
  assumes "\<forall>rt\<in>set rts. resolve domain rt \<noteq> Inl NXDOMAIN"
  shows "scan_types dec resolve domain rts (results, queried) =
           (results @ concat (map (\<lambda>rt. fst (query_type dec resolve domain rt [])) rts),
            queried @ rts)"
  using assms
proof (induction rts arbitrary: results queried)
  case Nil
  then show ?case by simp
next
  case (Cons rt rts)
  then show ?case by (simp add: scan_types_step_continue del: scan_types.simps(2))
qed

lemma scan_types_nxdomain:
  assumes "\<forall>t\<in>set pre. resolve domain t \<noteq> Inl NXDOMAIN"
    and "resolve domain rt = Inl NXDOMAIN"
  shows "scan_types dec resolve domain (pre @ rt # post) (results, queried) =
           (fst (scan_types dec resolve domain pre (results, queried)), queried @ pre @ [rt])"
  using assms(1)
proof (induction pre arbitrary: results queried)
  case Nil
  then show ?case using assms(2) by (simp add: scan_types_step_break del: scan_types.simps(2))
next
  case (Cons t pre)
  then show ?case by (simp add: scan_types_step_continue del: scan_types.simps(2))
qed

lemma collect_rdata_step:
  assumes "normalizes dec rt rd"
  shows "collect_rdata dec rt t (rd # rds) results =
           collect_rdata dec rt t rds (results @ [make_record dec rt t rd])"
  using assms
  by (auto simp: normalizes_def make_record_def Let_def split: sum.splits if_splits)

lemma collect_rdata_stop:
  assumes "\<not> normalizes dec rt rd"
  shows "fst (collect_rdata dec rt t (rd # rds) results) = results"
  using assms
  by (auto simp: normalizes_def Let_def split: sum.splits if_splits)

lemma collect_rdata_prefix:
  "fst (collect_rdata dec rt t rds []) =
     map (make_record dec rt t) (takeWhile (normalizes dec rt) rds)"
proof (induction rds)
  case Nil
  then show ?case by simp
next
  case (Cons rd rds)
  show ?case
  proof (cases "normalizes dec rt rd")
    case True
    have "fst (collect_rdata dec rt t (rd # rds) []) =
            fst (collect_rdata dec rt t rds [make_record dec rt t rd])"
      using collect_rdata_step [OF True, of t rds "[]"] by simp
    also have "\<dots> = make_record dec rt t rd # fst (collect_rdata dec rt t rds [])"
      using collect_rdata_append [of dec rt t rds "[make_record dec rt t rd]"] by simp
    finally show ?thesis using True Cons.IH by simp
  next
    case False
    then show ?thesis using collect_rdata_stop [OF False, of t rds "[]"] by simp
  qed
qed

lemma well_formed_normalizes:
  assumes "well_formed_answer dec rt rd"
  shows "normalizes dec rt rd"
proof (cases "rt = ''MX''")
  case True
  with assms obtain tx p x where "rd = RdMX tx p x"
    by (cases rd) (auto simp: well_formed_answer_def)
  with True show ?thesis by (simp add: normalizes_def extract_mx)
next
  case notmx: False
  show ?thesis
  proof (cases "rt = ''TXT''")
    case True
    with assms obtain tx ss where "rd = RdTXT tx ss" "list_all (decodable dec) ss"
      by (cases rd) (auto simp: well_formed_answer_def)
    with True show ?thesis by (simp add: normalizes_def extract_txt)
  next
    case nottxt: False
    show ?thesis
    proof (cases "rt = ''SOA''")
      case True
      with assms obtain tx m r n where "rd = RdSOA tx m r n"
        by (cases rd) (auto simp: well_formed_answer_def)
      with True show ?thesis by (simp add: normalizes_def extract_soa)
    next
      case False
      with notmx nottxt show ?thesis by (simp add: normalizes_def extract_plain)
    qed
  qed
qed

lemma query_type_records:
  "fst (query_type dec resolve domain rt []) = records_of_type dec resolve domain rt"
  by (cases "resolve domain rt")
     (simp_all add: query_type_def records_of_type_def collect_rdata_prefix)

lemma records_of_type_well_formed:
  assumes "resolve domain rt = Inr a"
    and "list_all (well_formed_answer dec rt) (answer_rdatas a)"
  shows "records_of_type dec resolve domain rt =
           map (make_record dec rt (answer_ttl a)) (answer_rdatas a)"
proof -
  have "\<forall>rd\<in>set (answer_rdatas a). normalizes dec rt rd"
    using assms(2) well_formed_normalizes by (auto simp: list_all_iff)
  then have tw: "takeWhile (normalizes dec rt) (answer_rdatas a) = answer_rdatas a"
    by (simp only: takeWhile_eq_all_conv)
  show ?thesis
    using assms(1) by (simp add: records_of_type_def tw del: takeWhile_eq_all_conv)
qed

lemma scan_dns_records_constructed:
  "scan_dns_records dec (Inr resolve) domain =
     Inr (fst (scan_types dec resolve domain RECORD_TYPES ([], [])))"
  "scan_dns_queries dec (Inr resolve) domain =
     snd (scan_types dec resolve domain RECORD_TYPES ([], []))"
  by (simp_all add: scan_dns_records_def scan_dns_queries_def scan_dns_records_traced_def
        split: prod.splits)

text \<open>
  C4: when the query of some record type answers NXDOMAIN and no earlier type did, the
  resolver is called for the types up to that one and for no later type, and the collector
  returns what the loop over the earlier types collected.  When that type is the first
  one, there is exactly one resolver call and the result is empty.
\<close>

theorem scan_dns_records_nxdomain_abort:
  assumes "RECORD_TYPES = pre @ rt # post"
    and "\<forall>t\<in>set pre. resolve domain t \<noteq> Inl NXDOMAIN"
    and "resolve domain rt = Inl NXDOMAIN"
  shows "scan_dns_queries dec (Inr resolve) domain = pre @ [rt] \<and>
         scan_dns_records dec (Inr resolve) domain =
           Inr (fst (scan_types dec resolve domain pre ([], []))) \<and>
         (pre = [] \<longrightarrow> scan_dns_records dec (Inr resolve) domain = Inr [] \<and>
                        length (scan_dns_queries dec (Inr resolve) domain) = 1)"
proof -
  have "scan_types dec resolve domain RECORD_TYPES ([], []) =
          (fst (scan_types dec resolve domain pre ([], [])), pre @ [rt])"
    using scan_types_nxdomain [where resolve = resolve and domain = domain and dec = dec
            and post = post and results = "[]" and queried = "[]", OF assms(2) assms(3)] assms(1)
    by simp
  then have "scan_dns_queries dec (Inr resolve) domain = pre @ [rt]"
    and "scan_dns_records dec (Inr resolve) domain =
           Inr (fst (scan_types dec resolve domain pre ([], [])))"
    by (simp_all add: scan_dns_records_constructed)
  then show ?thesis by simp
qed

theorem scan_dns_records_nxdomain_abort_witness:
  "RECORD_TYPES = [] @ ''A'' # [''AAAA'', ''MX'', ''TXT'', ''NS'', ''CNAME'', ''SOA''] \<and>
   (\<lambda>d t. Inl NXDOMAIN :: exn + answer) ''nosuch.example'' ''A'' = Inl NXDOMAIN \<and>
   scan_dns_queries ascii_decode (Inr (\<lambda>d t. Inl NXDOMAIN)) ''nosuch.example'' = [''A''] \<and>
   scan_dns_records ascii_decode (Inr (\<lambda>d t. Inl NXDOMAIN)) ''nosuch.example'' = Inr []"
  using scan_dns_records_nxdomain_abort
          [of "[]" "''A''" "[''AAAA'', ''MX'', ''TXT'', ''NS'', ''CNAME'', ''SOA'']"
              "\<lambda>d t. Inl NXDOMAIN" "''nosuch.example''" ascii_decode]
  by (simp add: RECORD_TYPES_def)

text \<open>
  C5, as the code has it: once the resolver has been constructed, and when no record type
  answers NXDOMAIN, the collector returns a list, whatever the per-type outcomes.  Every
  record type is queried, and the result is made, in the order of the record types, of the
  records of each type: none for a type whose query raised, and for a type that answered
  the records of its rdata, in order, up to the first one whose normalization raises,
  hence all of them when the answer is well formed.
\<close>

theorem scan_dns_records_soft_skip:
  assumes "\<forall>rt\<in>set RECORD_TYPES. resolve domain rt \<noteq> Inl NXDOMAIN"
  shows "scan_dns_records dec (Inr resolve) domain =
           Inr (concat (map (records_of_type dec resolve domain) RECORD_TYPES)) \<and>
         scan_dns_queries dec (Inr resolve) domain = RECORD_TYPES \<and>
         (\<forall>rt e. resolve domain rt = Inl e \<longrightarrow> records_of_type dec resolve domain rt = []) \<and>
         (\<forall>rt a. resolve domain rt = Inr a \<and>
                  list_all (well_formed_answer dec rt) (answer_rdatas a) \<longrightarrow>
                  records_of_type dec resolve domain rt =
                    map (make_record dec rt (answer_ttl a)) (answer_rdatas a))"
proof (intro conjI allI impI)
  have "scan_types dec resolve domain RECORD_TYPES ([], []) =
      (concat (map (\<lambda>rt. fst (query_type dec resolve domain rt [])) RECORD_TYPES), RECORD_TYPES)"
    using scan_types_no_nxdomain [where resolve = resolve and domain = domain and dec = dec
            and results = "[]" and queried = "[]", OF assms]
    by simp
  then have t: "scan_types dec resolve domain RECORD_TYPES ([], []) =
      (concat (map (records_of_type dec resolve domain) RECORD_TYPES), RECORD_TYPES)"
    by (simp only: query_type_records)
  show "scan_dns_records dec (Inr resolve) domain =
          Inr (concat (map (records_of_type dec resolve domain) RECORD_TYPES))"
    using t by (simp add: scan_dns_records_constructed)
  show "scan_dns_queries dec (Inr resolve) domain = RECORD_TYPES"
    using t by (simp add: scan_dns_records_constructed)
next
  fix rt e assume "resolve domain rt = Inl e"
  then show "records_of_type dec resolve domain rt = []" by (simp add: records_of_type_def)
next
  fix rt a
  assume "resolve domain rt = Inr a \<and> list_all (well_formed_answer dec rt) (answer_rdatas a)"
  then show "records_of_type dec resolve domain rt =
               map (make_record dec rt (answer_ttl a)) (answer_rdatas a)"
    using records_of_type_well_formed by blast
qed

theorem scan_dns_records_soft_skip_witness:
  "example_resolver ''example.com'' ''A'' = Inl Timeout \<and>
   list_all (\<lambda>rt. example_resolver ''example.com'' rt \<noteq> Inl NXDOMAIN) RECORD_TYPES \<and>
   scan_dns_records ascii_decode (Inr example_resolver) ''example.com'' =
     Inr [\<lparr>record_type = ''MX'', record_value = ''mail.example.com'', ttl = 300,
           priority = Some 10\<rparr>] \<and>
   scan_dns_queries ascii_decode (Inr example_resolver) ''example.com'' = RECORD_TYPES"
proof -
  have h1: "\<forall>rt\<in>set RECORD_TYPES. example_resolver ''example.com'' rt \<noteq> Inl NXDOMAIN"
    by (simp add: RECORD_TYPES_def example_resolver_def)
  have "concat (map (records_of_type ascii_decode example_resolver ''example.com'') RECORD_TYPES) =
     [\<lparr>record_type = ''MX'', record_value = ''mail.example.com'', ttl = 300, priority = Some 10\<rparr>]"
    by (simp add: RECORD_TYPES_def records_of_type_def example_resolver_def make_record_def
          normalizes_def extract_record_value_def rstrip_def)
  moreover have "example_resolver ''example.com'' ''A'' = Inl Timeout"
    by (simp add: example_resolver_def)
  ultimately show ?thesis
    using scan_dns_records_soft_skip
            [where resolve = example_resolver and domain = "''example.com''"
               and dec = ascii_decode, OF h1] h1
    by (simp add: list_all_iff)
qed

text \<open>
  C5 as stated fails in two ways.  When the resolver cannot be constructed, the exception
  leaves \<open>scan_dns_records\<close>.  And a record type can fail after its query succeeded: the
  second rdata of this TXT answer does not decode, the exception ends the type, and the
  record of the first rdata is in the result although the type failed.
\<close>

theorem scan_dns_records_raises_counterexample:
  "scan_dns_records ascii_decode (Inl NoResolverConfiguration) ''example.com'' =
     Inl NoResolverConfiguration \<and>
   snd (query_type ascii_decode txt_resolver ''example.com'' ''TXT'' []) = Some UnicodeDecodeError \<and>
   scan_dns_records ascii_decode (Inr txt_resolver) ''example.com'' =
     Inr [\<lparr>record_type = ''TXT'', record_value = ''good'', ttl = 60, priority = None\<rparr>]"
  by code_simp

section \<open>Properties of the WHOIS collector\<close>

lemma lower_char_idem: "lower_char (lower_char c) = lower_char c"
  by (auto simp: lower_char_def Let_def)

lemma rstrip_set: "set (rstrip s cs) \<subseteq> set s"
  using set_dropWhileD [of _ "\<lambda>c. c \<in> set cs" "rev s"] by (auto simp: rstrip_def)

lemma lower_fixed: "(\<forall>c\<in>set s. lower_char c = c) \<Longrightarrow> lower s = s"
  by (simp add: lower_def map_idI)

lemma lower_rstrip_lower: "lower (rstrip (lower ns) cs) = rstrip (lower ns) cs"
proof (rule lower_fixed)
  show "\<forall>c\<in>set (rstrip (lower ns) cs). lower_char c = c"
    using rstrip_set [of "lower ns" cs] by (auto simp: lower_def lower_char_idem)
qed

lemma clean_nameservers_set:
  "set (map (\<lambda>ns. rstrip (lower ns) ''.'') (filter (\<lambda>ns. ns \<noteq> []) xs)) =
     (\<lambda>ns. rstrip (lower ns) ''.'') ` {ns \<in> set xs. ns \<noteq> []}"
  by auto

lemma clean_nameservers_Some:
  assumes "clean_nameservers xs = Some ys"
  shows "sorted ys \<and> distinct ys \<and> ys \<noteq> [] \<and>
         set ys = (\<lambda>ns. rstrip (lower ns) ''.'') ` {ns \<in> set xs. ns \<noteq> []}"
proof -
  let ?S = "set (map (\<lambda>ns. rstrip (lower ns) ''.'') (filter (\<lambda>ns. ns \<noteq> []) xs))"
  from assms have ne: "?S \<noteq> {}" and ys: "ys = sorted_list_of_set ?S"
    by (auto simp: clean_nameservers_def Let_def split: if_splits)
  have fin: "finite ?S" by (rule finite_set)
  have "set ys = ?S" using ys fin by simp
  moreover from this ne have "ys \<noteq> []" by auto
  moreover have "sorted ys" and "distinct ys" using ys by simp_all
  ultimately show ?thesis using clean_nameservers_set [of xs] by simp
qed

lemma clean_nameservers_None:
  "clean_nameservers xs = None \<longleftrightarrow> (\<lambda>ns. rstrip (lower ns) ''.'') ` {ns \<in> set xs. ns \<noteq> []} = {}"
  unfolding clean_nameservers_set [symmetric]
  by (simp add: clean_nameservers_def Let_def)

lemma normalize_nameservers_clean: "normalize_nameservers v = clean_nameservers (ns_entries v)"
  by (cases v) (simp_all add: clean_nameservers_def)

text \<open>
  C8: whatever the shape of the input, the result is never the empty list; a returned list
  is sorted in the lexicographic order of strings, has no duplicates, and holds exactly the
  non-empty entries of the input, lowercased and without trailing dots, so that each
  element is its own lowercase form and does not end in a dot; and the result is absent
  exactly when no such entry exists.
\<close>

theorem normalize_nameservers_sorted_dedup:
  "normalize_nameservers v \<noteq> Some [] \<and>
   (\<forall>ys. normalize_nameservers v = Some ys \<longrightarrow>
      sorted ys \<and> distinct ys \<and> set ys = cleaned_entries v \<and>
      (\<forall>y\<in>set ys. lower y = y \<and> \<not> ends_with_dot y)) \<and>
   (normalize_nameservers v = None \<longleftrightarrow> cleaned_entries v = {})"
proof (intro conjI allI impI)
  show "normalize_nameservers v \<noteq> Some []"
    using clean_nameservers_Some [of "ns_entries v" "[]"] by (auto simp: normalize_nameservers_clean)
next
  fix ys assume a: "normalize_nameservers v = Some ys"
  then have s: "sorted ys \<and> distinct ys \<and> set ys = cleaned_entries v"
    using clean_nameservers_Some [of "ns_entries v" ys]
    by (simp add: normalize_nameservers_clean cleaned_entries_def)
  then show "sorted ys" and "distinct ys" and "set ys = cleaned_entries v" by simp_all
  show "\<forall>y\<in>set ys. lower y = y \<and> \<not> ends_with_dot y"
  proof
    fix y assume "y \<in> set ys"
    with s obtain ns where "y = rstrip (lower ns) ''.''" by (auto simp: cleaned_entries_def)
    then show "lower y = y \<and> \<not> ends_with_dot y"
      by (simp add: lower_rstrip_lower rstrip_dot_no_trailing_dot)
  qed
next
  show "normalize_nameservers v = None \<longleftrightarrow> cleaned_entries v = {}"
    by (simp add: normalize_nameservers_clean clean_nameservers_None cleaned_entries_def)
qed

theorem normalize_nameservers_sorted_dedup_witness:
  "normalize_nameservers (NsList [''NS2.Example.com.'', ''ns1.example.com'', ''ns1.example.com''])
     = Some [''ns1.example.com'', ''ns2.example.com''] \<and>
   sorted [''ns1.example.com'', ''ns2.example.com''] \<and>
   distinct [''ns1.example.com'', ''ns2.example.com''] \<and>
   set [''ns1.example.com'', ''ns2.example.com''] =
     cleaned_entries (NsList [''NS2.Example.com.'', ''ns1.example.com'', ''ns1.example.com'']) \<and>
   normalize_nameservers (NsList []) = None \<and>
   normalize_nameservers (NsStr ''NS1.Example.COM.'') = Some [''ns1.example.com'']"
proof -
  have e: "normalize_nameservers (NsList [''NS2.Example.com.'', ''ns1.example.com'', ''ns1.example.com''])
     = Some [''ns1.example.com'', ''ns2.example.com'']"
    by code_simp
  have n: "normalize_nameservers (NsList []) = None" by code_simp
  have l: "normalize_nameservers (NsStr ''NS1.Example.COM.'') = Some [''ns1.example.com'']"
    by code_simp
  show ?thesis
    using normalize_nameservers_sorted_dedup
            [of "NsList [''NS2.Example.com.'', ''ns1.example.com'', ''ns1.example.com'']"] e n l
    by simp
qed

text \<open>
  C9: \<open>scan_whois\<close> is a total function of the lookup's outcome.  It returns \<open>None\<close> when
  the lookup raises, be it the parse error or any other exception, and when the parsed
  response has no domain name; it returns data in the remaining case.
\<close>

theorem scan_whois_never_raises:
  "(\<forall>e. lookup domain = Inl e \<longrightarrow> scan_whois fromisoformat lookup domain = None) \<and>
   (\<forall>w. lookup domain = Inr w \<and> w_domain_name w = FNone \<longrightarrow>
        scan_whois fromisoformat lookup domain = None) \<and>
   (\<forall>w. lookup domain = Inr w \<and> w_domain_name w \<noteq> FNone \<longrightarrow>
        scan_whois fromisoformat lookup domain \<noteq> None)"
proof (intro conjI allI impI)
  fix e assume "lookup domain = Inl e"
  then show "scan_whois fromisoformat lookup domain = None"
    by (cases e) (simp_all add: scan_whois_def whois_try_def)
next
  fix w assume "lookup domain = Inr w \<and> w_domain_name w = FNone"
  then show "scan_whois fromisoformat lookup domain = None"
    by (simp add: scan_whois_def whois_try_def)
next
  fix w assume "lookup domain = Inr w \<and> w_domain_name w \<noteq> FNone"
  then show "scan_whois fromisoformat lookup domain \<noteq> None"
    by (simp add: scan_whois_def whois_try_def)
qed

theorem scan_whois_never_raises_witness:
  "scan_whois (\<lambda>s. None) (\<lambda>d. Inl (PywhoisError ''No match for domain'')) ''example.invalid'' = None \<and>
   scan_whois (\<lambda>s. None) (\<lambda>d. Inl (OtherException ''timed out'')) ''example.com'' = None \<and>
   scan_whois (\<lambda>s. None)
     (\<lambda>d. Inr \<lparr>w_domain_name = FNone, w_registrar = FNone, w_creation_date = DateNone,
               w_expiration_date = DateNone, w_updated_date = DateNone, w_name_servers = NsNone,
               w_country = FNone, w_text = Some ''No match''\<rparr>) ''free.example'' = None"
  using scan_whois_never_raises
          [of "\<lambda>d. Inl (PywhoisError ''No match for domain'')" "''example.invalid''" "\<lambda>s. None"]
        scan_whois_never_raises
          [of "\<lambda>d. Inl (OtherException ''timed out'')" "''example.com''" "\<lambda>s. None"]
        scan_whois_never_raises
          [of "\<lambda>d. Inr \<lparr>w_domain_name = FNone, w_registrar = FNone, w_creation_date = DateNone,
               w_expiration_date = DateNone, w_updated_date = DateNone, w_name_servers = NsNone,
               w_country = FNone, w_text = Some ''No match''\<rparr>" "''free.example''" "\<lambda>s. None"]
  by simp

section \<open>Properties of the scan orchestrator\<close>

lemma fold_max_ge: "(a::nat) \<le> fold max ids a \<and> (\<forall>x\<in>set ids. x \<le> fold max ids a)"
proof (induction ids arbitrary: a)
  case Nil
  then show ?case by simp
next
  case (Cons i ids)
  have "max i a \<le> fold max ids (max i a)" and "\<forall>x\<in>set ids. x \<le> fold max ids (max i a)"
    using Cons.IH [of "max i a"] by simp_all
  then show ?case by auto
qed

lemma fresh_id_fresh: "x \<in> set ids \<Longrightarrow> x < fresh_id ids"
  using fold_max_ge [of 0 ids] by (auto simp: fresh_id_def less_Suc_eq_le)

lemma new_scan_fresh: "r \<in> set (scans db) \<Longrightarrow> scan_id r \<noteq> scan_id (new_scan env domain db)"
  using fresh_id_fresh [of "scan_id r" "map scan_id (scans db)"] by (auto simp: new_scan_def)

lemma find_append:
  "find P (xs @ ys) = (case find P xs of None \<Rightarrow> find P ys | Some x \<Rightarrow> Some x)"
  by (induction xs) simp_all

lemma fold_insert_object_scans [simp]: "scans (fold insert_object added db) = scans db"
proof (induction added arbitrary: db)
  case Nil
  then show ?case by simp
next
  case (Cons x added)
  then show ?case by (cases x) simp_all
qed

lemma fold_insert_object_domains [simp]: "domains (fold insert_object added db) = domains db"
proof (induction added arbitrary: db)
  case Nil
  then show ?case by simp
next
  case (Cons x added)
  then show ?case by (cases x) simp_all
qed

lemma update_scan_fresh:
  assumes "\<forall>r\<in>set old. scan_id r \<noteq> scan_id scan" and "scan_id s' = scan_id scan"
  shows "scans (update_scan s' (fold insert_object added (db\<lparr>scans := old @ [scan]\<rparr>))) = old @ [s']"
proof -
  have "map (\<lambda>r. if scan_id r = scan_id s' then s' else r) old = old"
    using assms by (intro map_idI) auto
  then show ?thesis using assms(2) by (simp add: update_scan_def)
qed

lemma update_scan_domains [simp]: "domains (update_scan s db) = domains db"
  by (simp add: update_scan_def)

lemma run_collectors_raised:
  "snd (run_collectors env scan_data name sid) =
     (case env_resolver env of
        Inl e \<Rightarrow> Some (CollectorException e)
      | Inr resolve \<Rightarrow>
          if include_subdomains scan_data then Some (TypeError not_iterable) else None)"
  by (cases "env_resolver env")
     (simp_all add: run_collectors_def scan_dns_records_def scan_dns_records_traced_def Let_def
        iter_coroutine_def split: prod.splits)

lemma run_collectors_subdomains:
  "include_subdomains scan_data \<Longrightarrow> snd (run_collectors env scan_data name sid) \<noteq> None"
  by (simp add: run_collectors_raised split: sum.splits)

text \<open>The four ways in which the try and its handler end.\<close>

lemma run_scan_cases:
  fixes env scan_data name domain scan db
  defines "added \<equiv> fst (run_collectors env scan_data name (scan_id scan))"
    and "raised \<equiv> snd (run_collectors env scan_data name (scan_id scan))"
    and "completed \<equiv> scan\<lparr>status := ''completed'', completed_at := Some (t_completed env)\<rparr>"
    and "failed \<equiv> \<lambda>e. scan\<lparr>status := ''failed'', error_message := Some (str_exn e),
                              completed_at := Some (t_failed env)\<rparr>"
  shows "run_scan env scan_data name domain scan db =
     (case raised of
        Some e \<Rightarrow>
          (case handler_commit_error env of
             Some m \<Rightarrow> (Inl (DatabaseError m), db)
           | None \<Rightarrow> (Inl (HTTPException 500 (''Scan failed: '' @ str_exn e)),
                       update_scan (failed e) (fold insert_object added db)))
      | None \<Rightarrow>
          (case final_commit_error env of
             Some m \<Rightarrow> (Inl (PendingRollbackError m), db)
           | None \<Rightarrow> (let db' = update_scan completed (fold insert_object added db)
                       in (scan_response db' completed domain, db'))))"
  unfolding added_def raised_def completed_def failed_def
  by (cases "run_collectors env scan_data name (scan_id scan)")
     (auto simp: run_scan_def commit_def Let_def split: option.splits)

lemma scan_invariant_new_scan: "scan_invariant (new_scan env domain db)"
  by (simp add: scan_invariant_def new_scan_def)

lemma scan_invariant_completed:
  "scan_invariant (scan\<lparr>status := ''completed'', completed_at := Some t\<rparr>)"
  by (simp add: scan_invariant_def)

lemma scan_invariant_failed:
  "scan_invariant (scan\<lparr>status := ''failed'', error_message := m, completed_at := Some t\<rparr>)"
  by (simp add: scan_invariant_def)

lemma update_scan_invariant:
  assumes "list_all scan_invariant (scans db)" and "scan_invariant s"
  shows "list_all scan_invariant (scans (update_scan s (fold insert_object added db)))"
  using assms by (auto simp: update_scan_def list_all_iff)

lemma create_scan_row_invariant:
  assumes "list_all scan_invariant (scans db)"
    and "create_scan_row env domain db = Inr (scan, db')"
  shows "list_all scan_invariant (scans db')"
  using assms scan_invariant_new_scan [of env domain db]
  by (auto simp: create_scan_row_def Let_def split: option.splits)

lemma commit_invariant:
  assumes "list_all scan_invariant (scans db)" and "scan_invariant s"
    and "commit session refused added s db = Inr db'"
  shows "list_all scan_invariant (scans db')"
  using assms update_scan_invariant [of db s added]
  by (auto simp: commit_def split: option.splits session_state.splits)

lemma run_scan_invariant:
  assumes "list_all scan_invariant (scans db)"
  shows "list_all scan_invariant (scans (snd (run_scan env scan_data name domain scan db)))"
  unfolding run_scan_cases
  using assms
  by (auto simp: Let_def update_scan_invariant scan_invariant_completed scan_invariant_failed
           split: option.splits)

lemma get_or_create_domain_scans:
  "get_or_create_domain env name db = Inr (domain, db') \<Longrightarrow> scans db' = scans db"
  by (auto simp: get_or_create_domain_def Let_def split: option.splits)

text \<open>
  C6: when every stored Scan satisfies the invariant (status \<open>completed\<close> or
  \<open>failed\<close> exactly when the completion time is set, and no completion time while
  \<open>running\<close>), it still does after the creation of the Scan row, after the commit of the
  completed scan, after the commit of the failed scan, and after the whole of
  \<open>create_scan\<close>, whatever the collectors, the session and the commits do.
\<close>

theorem create_scan_preserves_invariant:
  assumes "list_all scan_invariant (scans db)"
  shows "(\<forall>domain scan db'. create_scan_row env domain db = Inr (scan, db') \<longrightarrow>
            list_all scan_invariant (scans db')) \<and>
         (\<forall>session added scan db'.
            commit session (final_commit_error env) added
              (scan\<lparr>status := ''completed'', completed_at := Some (t_completed env)\<rparr>) db = Inr db' \<longrightarrow>
            list_all scan_invariant (scans db')) \<and>
         (\<forall>session added scan e db'.
            commit session (handler_commit_error env) added
              (scan\<lparr>status := ''failed'', error_message := Some (str_exn e),
                    completed_at := Some (t_failed env)\<rparr>) db = Inr db' \<longrightarrow>
            list_all scan_invariant (scans db')) \<and>
         list_all scan_invariant (scans (snd (create_scan env scan_data db)))"
proof (intro conjI allI impI)
  fix domain scan db'
  assume "create_scan_row env domain db = Inr (scan, db')"
  with assms show "list_all scan_invariant (scans db')" by (rule create_scan_row_invariant)
next
  fix session added scan db'
  assume "commit session (final_commit_error env) added
            (scan\<lparr>status := ''completed'', completed_at := Some (t_completed env)\<rparr>) db = Inr db'"
  with assms scan_invariant_completed show "list_all scan_invariant (scans db')"
    by (rule commit_invariant)
next
  fix session added scan e db'
  assume "commit session (handler_commit_error env) added
            (scan\<lparr>status := ''failed'', error_message := Some (str_exn e),
                  completed_at := Some (t_failed env)\<rparr>) db = Inr db'"
  with assms scan_invariant_failed show "list_all scan_invariant (scans db')"
    by (rule commit_invariant)
next
  let ?name = "lower (sc_domain_name scan_data)"
  show "list_all scan_invariant (scans (snd (create_scan env scan_data db)))"
  proof (cases "get_or_create_domain env ?name db")
    case (Inl e)
    with assms show ?thesis by (simp add: create_scan_def)
  next
    case (Inr p)
    then obtain domain db1 where g: "get_or_create_domain env ?name db = Inr (domain, db1)"
      by (cases p) simp
    then have inv1: "list_all scan_invariant (scans db1)"
      using assms get_or_create_domain_scans by simp
    show ?thesis
    proof (cases "create_scan_row env domain db1")
      case (Inl e)
      with g inv1 show ?thesis by (simp add: create_scan_def)
    next
      case (Inr q)
      then obtain scan db2 where c: "create_scan_row env domain db1 = Inr (scan, db2)"
        by (cases q) simp
      with inv1 have "list_all scan_invariant (scans db2)" by (rule create_scan_row_invariant)
      then show ?thesis
        using g c run_scan_invariant [of db2 env scan_data ?name domain scan]
        by (simp add: create_scan_def)
    qed
  qed
qed

theorem create_scan_preserves_invariant_witness:
  "list_all scan_invariant (scans empty_db) \<and>
   list_all scan_invariant (scans (snd (create_scan example_env example_request empty_db))) \<and>
   scans (snd (create_scan example_env example_request empty_db)) =
     [\<lparr>scan_id = 1, scan_domain_id = 1, started_at = 1001, completed_at = Some 1003,
       status = ''failed'', error_message = Some not_iterable\<rparr>]"
proof -
  have h: "list_all scan_invariant (scans empty_db)" by (simp add: empty_db_def)
  have e: "scans (snd (create_scan example_env example_request empty_db)) =
     [\<lparr>scan_id = 1, scan_domain_id = 1, started_at = 1001, completed_at = Some 1003,
       status = ''failed'', error_message = Some not_iterable\<rparr>]"
    by code_simp
  show ?thesis
    using create_scan_preserves_invariant [OF h, of example_env example_request] h e by simp
qed

lemma get_or_create_domain_ok:
  assumes "domain_commit_error env = None \<or> find (\<lambda>d. domain_name d = name) (domains db) \<noteq> None"
  shows "\<exists>domain db1.
           get_or_create_domain env name db = Inr (domain, db1) \<and>
           scans db1 = scans db \<and>
           find (\<lambda>d. domain_name d = name) (domains db1) = Some domain \<and>
           (find (\<lambda>d. domain_name d = name) (domains db) \<noteq> None \<longrightarrow> db1 = db) \<and>
           (distinct (map domain_name (domains db)) \<longrightarrow> distinct (map domain_name (domains db1)))"
proof (cases "find (\<lambda>d. domain_name d = name) (domains db)")
  case (Some domain)
  then show ?thesis by (simp add: get_or_create_domain_def)
next
  case None
  with assms have ok: "domain_commit_error env = None" by simp
  let ?d = "new_domain env name db"
  have nm: "domain_name ?d = name" by (simp add: new_domain_def)
  have absent: "name \<notin> set (map domain_name (domains db))"
    using None by (auto simp: find_None_iff)
  have "get_or_create_domain env name db = Inr (?d, db\<lparr>domains := domains db @ [?d]\<rparr>)"
    using None ok by (simp add: get_or_create_domain_def Let_def)
  moreover have "find (\<lambda>d. domain_name d = name) (domains db @ [?d]) = Some ?d"
    using None nm by (simp add: find_append)
  moreover have "distinct (map domain_name (domains db)) \<longrightarrow>
                 distinct (map domain_name (domains db @ [?d]))"
    using absent nm by simp
  ultimately show ?thesis using None by simp
qed

lemma create_scan_run:
  assumes "get_or_create_domain env (lower (sc_domain_name scan_data)) db = Inr (domain, db1)"
    and "scan_commit_error env = None"
  shows "create_scan env scan_data db =
           run_scan env scan_data (lower (sc_domain_name scan_data)) domain (new_scan env domain db1)
             (db1\<lparr>scans := scans db1 @ [new_scan env domain db1]\<rparr>)"
  using assms by (simp add: create_scan_def create_scan_row_def Let_def)

lemma run_scan_domains:
  "domains (snd (run_scan env scan_data name domain scan db)) = domains db"
  unfolding run_scan_cases by (simp add: Let_def split: option.splits)

lemma run_scan_scans:
  assumes "\<forall>r\<in>set old. scan_id r \<noteq> scan_id scan"
  shows "\<exists>s'. scans (snd (run_scan env scan_data name domain scan (db\<lparr>scans := old @ [scan]\<rparr>)))
                = old @ [s'] \<and>
              scan_id s' = scan_id scan \<and> scan_domain_id s' = scan_domain_id scan"
  unfolding run_scan_cases
  using assms by (auto simp: Let_def update_scan_fresh split: option.splits)

lemma create_scan_appends:
  assumes "domain_commit_error env = None \<or>
           find (\<lambda>d. domain_name d = lower (sc_domain_name scan_data)) (domains db) \<noteq> None"
    and "scan_commit_error env = None"
  shows "\<exists>d s.
           find (\<lambda>d. domain_name d = lower (sc_domain_name scan_data))
             (domains (snd (create_scan env scan_data db))) = Some d \<and>
           scans (snd (create_scan env scan_data db)) = scans db @ [s] \<and>
           scan_id s = fresh_id (map scan_id (scans db)) \<and>
           scan_domain_id s = domain_id d \<and>
           (find (\<lambda>d. domain_name d = lower (sc_domain_name scan_data)) (domains db) \<noteq> None \<longrightarrow>
              domains (snd (create_scan env scan_data db)) = domains db) \<and>
           (distinct (map domain_name (domains db)) \<longrightarrow>
              distinct (map domain_name (domains (snd (create_scan env scan_data db)))))"
proof -
  let ?name = "lower (sc_domain_name scan_data)"
  obtain domain db1 where
    g: "get_or_create_domain env ?name db = Inr (domain, db1)" and
    sc: "scans db1 = scans db" and
    fd: "find (\<lambda>d. domain_name d = ?name) (domains db1) = Some domain" and
    same: "find (\<lambda>d. domain_name d = ?name) (domains db) \<noteq> None \<longrightarrow> db1 = db" and
    dist: "distinct (map domain_name (domains db)) \<longrightarrow> distinct (map domain_name (domains db1))"
    using get_or_create_domain_ok [OF assms(1)] by blast
  let ?scan = "new_scan env domain db1"
  let ?db2 = "db1\<lparr>scans := scans db1 @ [?scan]\<rparr>"
  have run: "create_scan env scan_data db = run_scan env scan_data ?name domain ?scan ?db2"
    using g assms(2) by (rule create_scan_run)
  have fresh: "\<forall>r\<in>set (scans db1). scan_id r \<noteq> scan_id ?scan"
    using new_scan_fresh by blast
  obtain s' where
    s: "scans (snd (run_scan env scan_data ?name domain ?scan ?db2)) = scans db1 @ [s']"
       "scan_id s' = scan_id ?scan" "scan_domain_id s' = scan_domain_id ?scan"
    using run_scan_scans [OF fresh] by blast
  have dom: "domains (snd (create_scan env scan_data db)) = domains db1"
    using run by (simp add: run_scan_domains)
  have "scans (snd (create_scan env scan_data db)) = scans db @ [s']"
    using run s(1) sc by simp
  moreover have "scan_id s' = fresh_id (map scan_id (scans db))"
    using s(2) sc by (simp add: new_scan_def)
  moreover have "scan_domain_id s' = domain_id domain"
    using s(3) by (simp add: new_scan_def)
  ultimately show ?thesis using dom fd same dist by auto
qed

lemma find_distinct_filter:
  assumes "distinct (map f xs)" and "find (\<lambda>x. f x = a) xs = Some d"
  shows "filter (\<lambda>x. f x = a) xs = [d]"
  using assms
proof (induction xs)
  case Nil
  then show ?case by simp
next
  case (Cons x xs)
  show ?case
  proof (cases "f x = a")
    case True
    then have "\<forall>y\<in>set xs. f y \<noteq> a" using Cons.prems(1) by (auto simp: image_iff)
    then have "filter (\<lambda>x. f x = a) xs = []" by (simp add: filter_empty_conv)
    with True Cons.prems(2) show ?thesis by simp
  next
    case False
    with Cons show ?thesis by simp
  qed
qed

text \<open>
  C7: let the domain names of the store be unique and let the commits that create the
  Domain and the Scan rows succeed.  Two requests with the same name append two Scan rows
  with different keys after the scans that were there, which stay as they were; the second
  request leaves the Domain table as the first one left it; that table has exactly one row
  whose name is the lowercased input, and both Scan rows refer to it.
\<close>

theorem create_scan_twice_appends:
  assumes "distinct (map domain_name (domains db))"
    and "domain_commit_error env1 = None" and "scan_commit_error env1 = None"
    and "scan_commit_error env2 = None"
    and "sc_domain_name second = sc_domain_name first"
  shows "\<exists>d s1 s2.
           domains (snd (create_scan env2 second (snd (create_scan env1 first db)))) =
             domains (snd (create_scan env1 first db)) \<and>
           filter (\<lambda>d. domain_name d = lower (sc_domain_name first))
             (domains (snd (create_scan env2 second (snd (create_scan env1 first db))))) = [d] \<and>
           scans (snd (create_scan env1 first db)) = scans db @ [s1] \<and>
           scans (snd (create_scan env2 second (snd (create_scan env1 first db)))) =
             scans db @ [s1, s2] \<and>
           scan_id s1 \<noteq> scan_id s2 \<and>
           scan_domain_id s1 = domain_id d \<and> scan_domain_id s2 = domain_id d"
proof -
  let ?name = "lower (sc_domain_name first)"
  let ?db1 = "snd (create_scan env1 first db)"
  let ?db2 = "snd (create_scan env2 second ?db1)"
  obtain d s1 where
    fd1: "find (\<lambda>d. domain_name d = ?name) (domains ?db1) = Some d" and
    sc1: "scans ?db1 = scans db @ [s1]" and
    dm1: "scan_domain_id s1 = domain_id d" and
    dist1: "distinct (map domain_name (domains ?db1))"
    using create_scan_appends [of env1 first db] assms(1,2,3) by blast
  have found: "find (\<lambda>d. domain_name d = lower (sc_domain_name second)) (domains ?db1) \<noteq> None"
    using fd1 assms(5) by simp
  obtain d' s2 where
    fd2: "find (\<lambda>d. domain_name d = ?name) (domains ?db2) = Some d'" and
    sc2: "scans ?db2 = scans ?db1 @ [s2]" and
    id2: "scan_id s2 = fresh_id (map scan_id (scans ?db1))" and
    dm2: "scan_domain_id s2 = domain_id d'" and
    same: "domains ?db2 = domains ?db1"
    using create_scan_appends [of env2 second ?db1] found assms(4,5) by auto
  have "d' = d" using fd1 fd2 same by simp
  moreover have "scan_id s1 \<noteq> scan_id s2"
    using fresh_id_fresh [of "scan_id s1" "map scan_id (scans ?db1)"] sc1 id2 by simp
  moreover have "filter (\<lambda>d. domain_name d = ?name) (domains ?db2) = [d]"
    using find_distinct_filter [of domain_name "domains ?db1" ?name d] dist1 fd1 same by simp
  ultimately show ?thesis using sc1 sc2 dm1 dm2 same by simp
qed

theorem create_scan_twice_appends_witness:
  "distinct (map domain_name (domains empty_db)) \<and>
   domains (snd (create_scan example_env example_request
                   (snd (create_scan example_env example_request empty_db)))) =
     [\<lparr>domain_id = 1, domain_name = ''example.com'', created_at = 1000, is_active = True\<rparr>] \<and>
   map (\<lambda>r. (scan_id r, scan_domain_id r))
     (scans (snd (create_scan example_env example_request
                    (snd (create_scan example_env example_request empty_db))))) =
     [(1, 1), (2, 1)]"
proof -
  have h: "distinct (map domain_name (domains empty_db))" by (simp add: empty_db_def)
  have e1: "domains (snd (create_scan example_env example_request
                   (snd (create_scan example_env example_request empty_db)))) =
     [\<lparr>domain_id = 1, domain_name = ''example.com'', created_at = 1000, is_active = True\<rparr>]"
    by code_simp
  have e2: "map (\<lambda>r. (scan_id r, scan_domain_id r))
     (scans (snd (create_scan example_env example_request
                    (snd (create_scan example_env example_request empty_db))))) =
     [(1, 1), (2, 1)]"
    by code_simp
  show ?thesis
    using create_scan_twice_appends
            [of empty_db example_env example_env example_request example_request] h e1 e2
    by (simp add: example_env_def)
qed

lemma get_scan_appended:
  assumes "\<forall>r\<in>set old. scan_id r \<noteq> scan_id s"
  shows "find (\<lambda>r. scan_id r = scan_id s) (old @ [s]) = Some s"
proof -
  have "find (\<lambda>r. scan_id r = scan_id s) old = None" using assms by (simp add: find_None_iff)
  then show ?thesis by (simp add: find_append)
qed

text \<open>
  The outcome of a request whose first two commits succeed and whose \<open>try\<close> raises
  before the final commit, when the commit of the handler succeeds.
\<close>

lemma create_scan_failed:
  fixes env scan_data db
  defines "name \<equiv> lower (sc_domain_name scan_data)"
  defines "sid \<equiv> fresh_id (map scan_id (scans db))"
  assumes first_commits: "domain_commit_error env = None" "scan_commit_error env = None"
    and handler_ok: "handler_commit_error env = None"
    and raised: "snd (run_collectors env scan_data name sid) = Some e"
  shows "fst (create_scan env scan_data db) = Inl (HTTPException 500 (''Scan failed: '' @ str_exn e)) \<and>
         (\<exists>r. get_scan (snd (create_scan env scan_data db)) sid = Some r \<and>
               status r = ''failed'' \<and> error_message r = Some (str_exn e) \<and>
               completed_at r = Some (t_failed env))"
proof -
  obtain domain db1 where
    g: "get_or_create_domain env name db = Inr (domain, db1)" and sc: "scans db1 = scans db"
    using get_or_create_domain_ok [of env name db] first_commits(1) by blast
  let ?scan = "new_scan env domain db1"
  let ?db2 = "db1\<lparr>scans := scans db1 @ [?scan]\<rparr>"
  let ?added = "fst (run_collectors env scan_data name (scan_id ?scan))"
  let ?failed = "?scan\<lparr>status := ''failed'', error_message := Some (str_exn e),
                       completed_at := Some (t_failed env)\<rparr>"
  have sid: "scan_id ?scan = sid" using sc by (simp add: new_scan_def sid_def)
  have run: "create_scan env scan_data db = run_scan env scan_data name domain ?scan ?db2"
    using g first_commits(2) unfolding name_def by (rule create_scan_run)
  have c: "snd (run_collectors env scan_data name (scan_id ?scan)) = Some e"
    using raised sid by simp
  have res: "run_scan env scan_data name domain ?scan ?db2 =
          (Inl (HTTPException 500 (''Scan failed: '' @ str_exn e)),
           update_scan ?failed (fold insert_object ?added ?db2))"
    unfolding run_scan_cases c using handler_ok by simp
  have fresh: "\<forall>r\<in>set (scans db1). scan_id r \<noteq> scan_id ?scan"
    using new_scan_fresh by blast
  have "scans (update_scan ?failed (fold insert_object ?added ?db2)) = scans db1 @ [?failed]"
    using fresh by (intro update_scan_fresh) simp_all
  moreover have "find (\<lambda>r. scan_id r = scan_id ?failed) (scans db1 @ [?failed]) = Some ?failed"
    using fresh by (intro get_scan_appended) simp
  ultimately have "get_scan (update_scan ?failed (fold insert_object ?added ?db2)) sid = Some ?failed"
    using sid by (simp add: get_scan_def)
  then show ?thesis using run res by simp
qed

text \<open>
  C2 on the code: when the first two commits succeed, the collectors raise nothing and the
  store refuses the final commit, the handler finds the session inactive, since nothing
  rolled it back.  Its own commit raises, whatever the store would answer, that exception
  leaves \<open>create_scan\<close>, and the Scan read back by its key is still \<open>running\<close>, with no
  error detail and no completion time.
\<close>

theorem create_scan_final_commit_failure_stays_running:
  assumes "domain_commit_error env = None" and "scan_commit_error env = None"
    and "env_resolver env = Inr resolve"
    and "\<not> include_subdomains scan_data"
    and "final_commit_error env = Some m"
  shows "fst (create_scan env scan_data db) = Inl (PendingRollbackError m) \<and>
         (\<exists>r. get_scan (snd (create_scan env scan_data db)) (fresh_id (map scan_id (scans db))) = Some r \<and>
               status r = ''running'' \<and> error_message r = None \<and> completed_at r = None)"
proof -
  let ?name = "lower (sc_domain_name scan_data)"
  obtain domain db1 where
    g: "get_or_create_domain env ?name db = Inr (domain, db1)" and sc: "scans db1 = scans db"
    using get_or_create_domain_ok [of env ?name db] assms(1) by blast
  let ?scan = "new_scan env domain db1"
  let ?db2 = "db1\<lparr>scans := scans db1 @ [?scan]\<rparr>"
  have sid: "scan_id ?scan = fresh_id (map scan_id (scans db))"
    using sc by (simp add: new_scan_def)
  have run: "create_scan env scan_data db = run_scan env scan_data ?name domain ?scan ?db2"
    using g assms(2) by (rule create_scan_run)
  have c: "snd (run_collectors env scan_data ?name (scan_id ?scan)) = None"
    using assms(3,4) by (simp add: run_collectors_raised)
  have res: "run_scan env scan_data ?name domain ?scan ?db2 = (Inl (PendingRollbackError m), ?db2)"
    unfolding run_scan_cases c using assms(5) by simp
  have fresh: "\<forall>r\<in>set (scans db1). scan_id r \<noteq> scan_id ?scan"
    using new_scan_fresh by blast
  have "find (\<lambda>r. scan_id r = scan_id ?scan) (scans db1 @ [?scan]) = Some ?scan"
    using fresh by (rule get_scan_appended)
  then have "get_scan ?db2 (fresh_id (map scan_id (scans db))) = Some ?scan"
    using sid by (simp add: get_scan_def)
  moreover have "status ?scan = ''running'' \<and> error_message ?scan = None \<and> completed_at ?scan = None"
    by (simp add: new_scan_def)
  ultimately show ?thesis using run res by simp
qed

theorem create_scan_final_commit_failure_stays_running_witness:
  "final_commit_error final_commit_refused = Some ''connection lost'' \<and>
   handler_commit_error final_commit_refused = None \<and>
   fst (create_scan final_commit_refused request_without_subdomains empty_db) =
     Inl (PendingRollbackError ''connection lost'') \<and>
   get_scan (snd (create_scan final_commit_refused request_without_subdomains empty_db)) 1 =
     Some \<lparr>scan_id = 1, scan_domain_id = 1, started_at = 1001, completed_at = None,
            status = ''running'', error_message = None\<rparr>"
proof -
  have e: "get_scan (snd (create_scan final_commit_refused request_without_subdomains empty_db)) 1 =
     Some \<lparr>scan_id = 1, scan_domain_id = 1, started_at = 1001, completed_at = None,
            status = ''running'', error_message = None\<rparr>"
    by code_simp
  show ?thesis
    using create_scan_final_commit_failure_stays_running
            [of final_commit_refused example_resolver request_without_subdomains
                "''connection lost''" empty_db] e
    by (simp add: final_commit_refused_def request_without_subdomains_def example_env_def
          example_request_def)
qed

lemma create_scan_subdomains_no_response:
  assumes "include_subdomains scan_data"
  shows "fst (create_scan env scan_data db) \<noteq> Inr response"
proof -
  have "fst (run_scan env scan_data name domain scan db2) \<noteq> Inr response" for name domain scan db2
    unfolding run_scan_cases
    using run_collectors_subdomains [OF assms, of env name "scan_id scan"]
    by (auto split: option.splits)
  then show ?thesis
    by (auto simp: create_scan_def Let_def split: sum.splits prod.splits)
qed

text \<open>
  C3, as the code has it: with \<open>include_subdomains\<close> set, \<open>create_scan\<close> never returns
  a response.  When the resolver has been constructed, the part of the \<open>try\<close> before the
  final commit raises the TypeError of iterating a coroutine.  When moreover the commits of
  the Domain, of the Scan and of the handler succeed, the caller gets the HTTP error 500
  and the stored Scan is \<open>failed\<close> with that error text.
\<close>

theorem create_scan_subdomains_type_error:
  assumes "include_subdomains scan_data"
  shows "(\<forall>response. fst (create_scan env scan_data db) \<noteq> Inr response) \<and>
         (\<forall>resolve. env_resolver env = Inr resolve \<longrightarrow>
            snd (run_collectors env scan_data name sid) = Some (TypeError not_iterable)) \<and>
         (\<forall>resolve. env_resolver env = Inr resolve \<and> domain_commit_error env = None \<and>
            scan_commit_error env = None \<and> handler_commit_error env = None \<longrightarrow>
            fst (create_scan env scan_data db) =
              Inl (HTTPException 500 (''Scan failed: '' @ not_iterable)) \<and>
            (\<exists>r. get_scan (snd (create_scan env scan_data db)) (fresh_id (map scan_id (scans db))) = Some r \<and>
                  status r = ''failed'' \<and> error_message r = Some not_iterable \<and>
                  completed_at r = Some (t_failed env)))"
proof (intro conjI allI impI)
  fix response
  show "fst (create_scan env scan_data db) \<noteq> Inr response"
    using assms by (rule create_scan_subdomains_no_response)
next
  fix resolve assume "env_resolver env = Inr resolve"
  with assms show "snd (run_collectors env scan_data name sid) = Some (TypeError not_iterable)"
    by (simp add: run_collectors_raised)
next
  fix resolve
  assume h: "env_resolver env = Inr resolve \<and> domain_commit_error env = None \<and>
             scan_commit_error env = None \<and> handler_commit_error env = None"
  have "snd (run_collectors env scan_data (lower (sc_domain_name scan_data))
               (fresh_id (map scan_id (scans db)))) = Some (TypeError not_iterable)"
    using assms h by (simp add: run_collectors_raised)
  then have "fst (create_scan env scan_data db) =
              Inl (HTTPException 500 (''Scan failed: '' @ not_iterable)) \<and>
            (\<exists>r. get_scan (snd (create_scan env scan_data db)) (fresh_id (map scan_id (scans db))) = Some r \<and>
                  status r = ''failed'' \<and> error_message r = Some not_iterable \<and>
                  completed_at r = Some (t_failed env))"
    using create_scan_failed [where env = env and scan_data = scan_data and db = db
            and e = "TypeError not_iterable"] h
    by simp
  then show "fst (create_scan env scan_data db) =
               Inl (HTTPException 500 (''Scan failed: '' @ not_iterable))"
    and "\<exists>r. get_scan (snd (create_scan env scan_data db)) (fresh_id (map scan_id (scans db))) = Some r \<and>
             status r = ''failed'' \<and> error_message r = Some not_iterable \<and>
             completed_at r = Some (t_failed env)"
    by simp_all
qed

theorem create_scan_subdomains_type_error_witness:
  "include_subdomains example_request \<and>
   fst (create_scan example_env example_request empty_db) =
     Inl (HTTPException 500 (''Scan failed: '' @ not_iterable)) \<and>
   get_scan (snd (create_scan example_env example_request empty_db)) 1 =
     Some \<lparr>scan_id = 1, scan_domain_id = 1, started_at = 1001, completed_at = Some 1003,
            status = ''failed'', error_message = Some not_iterable\<rparr>"
proof -
  have h: "include_subdomains example_request" by (simp add: example_request_def)
  have e: "get_scan (snd (create_scan example_env example_request empty_db)) 1 =
     Some \<lparr>scan_id = 1, scan_domain_id = 1, started_at = 1001, completed_at = Some 1003,
            status = ''failed'', error_message = Some not_iterable\<rparr>"
    by code_simp
  show ?thesis
    using create_scan_subdomains_type_error [OF h, of example_env empty_db "''example.com''" 1] h e
    by (simp add: example_env_def)
qed

text \<open>
  C3 as stated fails for three calls with \<open>include_subdomains\<close> set.  When the resolver
  cannot be constructed, step 3 raises first: no TypeError is raised, and the scan fails
  with the resolver's error.  When the store refuses the commit of the handler, the Scan
  stays \<open>running\<close> and the caller gets that error.  When the store refuses the commit of
  the Scan row, there is no Scan to fail.
\<close>

theorem create_scan_subdomains_type_error_counterexample:
  "include_subdomains example_request \<and>
   snd (run_collectors no_resolver_configuration example_request ''example.com'' 1) =
     Some (CollectorException NoResolverConfiguration) \<and>
   get_scan (snd (create_scan no_resolver_configuration example_request empty_db)) 1 =
     Some \<lparr>scan_id = 1, scan_domain_id = 1, started_at = 1001, completed_at = Some 1003,
            status = ''failed'',
            error_message =
              Some ''Resolver configuration could not be read or specified no nameservers.''\<rparr> \<and>
   fst (create_scan handler_commit_refused example_request empty_db) =
     Inl (DatabaseError ''connection lost'') \<and>
   get_scan (snd (create_scan handler_commit_refused example_request empty_db)) 1 =
     Some \<lparr>scan_id = 1, scan_domain_id = 1, started_at = 1001, completed_at = None,
            status = ''running'', error_message = None\<rparr> \<and>
   fst (create_scan scan_commit_refused example_request empty_db) =
     Inl (DatabaseError ''connection lost'') \<and>
   get_scan (snd (create_scan scan_commit_refused example_request empty_db)) 1 = None"
  by code_simp

end
